theory Spec2Isabelle
  imports
    Complex_Main
    "HOL-Library.AList"
    "HOL-Library.Char_ord"
    "HOL-Library.List_Lexorder"
    "HOL-Library.Product_Lexorder"
begin

section \<open>Data model\<close>

text \<open>
  A Python \<^verbatim>\<open>str\<close> that comes from outside (a page, a raw file, the snapshot file) is
  the list of its Unicode code points; two such strings compare as Python compares them,
  code point by code point. The strings the program builds itself (URLs, type keys, file
  names and contents) are ASCII and are kept as \<open>string\<close>; \<open>utext\<close> reads one as a list
  of code points.
\<close>

type_synonym ustring = "int list"

definition utext :: "string \<Rightarrow> ustring" where
  "utext s = map of_char s"

text \<open>
  The dataclass \<^verbatim>\<open>Row\<close> of \<^verbatim>\<open>scraper.py\<close>. The field \<^verbatim>\<open>type\<close> is named
  \<open>rtype\<close> here. Python's unbounded \<^verbatim>\<open>int\<close> is \<open>int\<close>; a \<^verbatim>\<open>float\<close> is
  modelled by a rational number (no NaN, no infinities, no rounding).
\<close>

record Row =
  artist :: ustring
  song :: ustring
  rtype :: string
  url :: string
  hits :: int
  rating :: "rat option"
  votes :: "int option"

text \<open>
  A Python \<^verbatim>\<open>dict\<close> keeps its keys in insertion order, and assigning to a key that is
  present keeps the key's position. It is modelled by an association list that is read
  with \<open>map_of\<close> and written with \<open>AList.update\<close> (replace in place, else append).
\<close>

type_synonym rows_dict = "(string \<times> Row) list"

text \<open>
  One element \<^verbatim>\<open>t\<close> of the \<^verbatim>\<open>tabs\<close> list of a listing page, after the conversions
  the loops of \<^verbatim>\<open>_build_rows_for_type\<close> apply to it:
  \<^item> \<open>tab_id\<close> is \<^verbatim>\<open>int(t.get("id"))\<close>, and \<open>None\<close> on each path that ends in
    \<^verbatim>\<open>continue\<close> before the names are read (\<^verbatim>\<open>t\<close> is no dict, the id is
    missing or null, \<^verbatim>\<open>int\<close> raises);
  \<^item> \<open>artist_name\<close>, \<open>song_name\<close> are \<^verbatim>\<open>t.get(...)\<close>, \<open>None\<close> when the key is
    missing or null (a name that is neither a string nor null is outside the model);
  \<^item> \<open>tab_rating\<close> is \<^verbatim>\<open>float(t["rating"])\<close> and \<open>tab_votes\<close> is
    \<^verbatim>\<open>int(t["votes"])\<close>, \<open>None\<close> when the key is missing, null, or the
    conversion raises.
\<close>

record tab =
  tab_id :: "int option"
  artist_name :: "ustring option"
  song_name :: "ustring option"
  tab_rating :: "rat option"
  tab_votes :: "int option"

text \<open>
  One element \<^verbatim>\<open>h\<close> of the \<^verbatim>\<open>hits\<close> list of a page: \<^verbatim>\<open>int(h.get("id"))\<close> and
  \<^verbatim>\<open>int(h.get("hits"))\<close>, \<open>None\<close> where the conversion raises (or \<^verbatim>\<open>h\<close> is no dict).
\<close>

type_synonym hit_entry = "int option \<times> int option"

text \<open>What the two fetches of one type yield, after \<^verbatim>\<open>_parse_page_embedded_json\<close>.\<close>

record listing =
  tabs_hits :: "tab list"
  hits_list :: "hit_entry list"
  tabs_rating :: "tab list"

section \<open>String helpers\<close>

definition TABS_BASE :: string where
  "TABS_BASE = ''https://tabs.ultimate-guitar.com''"

definition digit_char :: "nat \<Rightarrow> char" where
  "digit_char d = char_of (48 + d)"

fun str_nat :: "nat \<Rightarrow> string" where
  "str_nat n = (if n < 10 then [digit_char n] else str_nat (n div 10) @ [digit_char (n mod 10)])"

declare str_nat.simps [simp del]

definition str_int :: "int \<Rightarrow> string" where
  "str_int i = (if i < 0 then CHR ''-'' # str_nat (nat (- i)) else str_nat (nat i))"

text \<open>\<^verbatim>\<open>url = f"{TABS_BASE}/tab/{tid_i}"\<close>\<close>

definition tab_url :: "int \<Rightarrow> string" where
  "tab_url tid_i = TABS_BASE @ ''/tab/'' @ str_int tid_i"

text \<open>
  \<^verbatim>\<open>str.strip()\<close> removes the leading and trailing characters for which
  \<^verbatim>\<open>str.isspace\<close> holds: the code points of general category Zs or of bidirectional
  class WS, B or S, which are 9 to 13, 28 to 32, 133, 160, 5760, 8192 to 8202, 8232, 8233,
  8239, 8287 and 12288.
\<close>

definition isspace :: "int \<Rightarrow> bool" where
  "isspace c = ((9 \<le> c \<and> c \<le> 13) \<or> (28 \<le> c \<and> c \<le> 32) \<or> c = 133 \<or> c = 160 \<or> c = 5760
     \<or> (8192 \<le> c \<and> c \<le> 8202) \<or> c = 8232 \<or> c = 8233 \<or> c = 8239 \<or> c = 8287 \<or> c = 12288)"

definition strip :: "ustring \<Rightarrow> ustring" where
  "strip s = rev (dropWhile isspace (rev (dropWhile isspace s)))"

text \<open>\<^verbatim>\<open>(t.get(k) or "")\<close>\<close>

definition or_empty :: "'a list option \<Rightarrow> 'a list" where
  "or_empty v = (case v of None \<Rightarrow> [] | Some s \<Rightarrow> s)"

section \<open>The live merge: \<^verbatim>\<open>_build_rows_for_type\<close>\<close>

text \<open>The first loop: \<^verbatim>\<open>hits_by_id[tid_i] = hv_i\<close>, entries that do not convert skipped.\<close>

definition hits_entry_step :: "hit_entry \<Rightarrow> (int \<rightharpoonup> int) \<Rightarrow> (int \<rightharpoonup> int)" where
  "hits_entry_step h m =
     (case h of (Some tid_i, Some hv_i) \<Rightarrow> m(tid_i \<mapsto> hv_i) | _ \<Rightarrow> m)"

definition build_hits_by_id :: "hit_entry list \<Rightarrow> (int \<rightharpoonup> int)" where
  "build_hits_by_id hl = fold hits_entry_step hl Map.empty"

text \<open>\<^verbatim>\<open>hits_by_id.get(tid_i, 0)\<close>\<close>

definition get_hits :: "(int \<rightharpoonup> int) \<Rightarrow> int \<Rightarrow> int" where
  "get_hits hits_by_id tid_i = (case hits_by_id tid_i of None \<Rightarrow> 0 | Some h \<Rightarrow> h)"

text \<open>The body of the loop over the hits-ordered list (source lines 205 to 238).\<close>

definition hits_step :: "string \<Rightarrow> (int \<rightharpoonup> int) \<Rightarrow> tab \<Rightarrow> rows_dict \<Rightarrow> rows_dict" where
  "hits_step type_key hits_by_id t rows_by_url =
     (case tab_id t of
        None \<Rightarrow> rows_by_url
      | Some tid_i \<Rightarrow>
          let a = strip (or_empty (artist_name t));
              s = strip (or_empty (song_name t))
          in if a = [] \<or> s = [] then rows_by_url
             else
               let u = tab_url tid_i;
                   h = get_hits hits_by_id tid_i
               in (case map_of rows_by_url u of
                     Some existing \<Rightarrow>
                       if h \<noteq> 0 \<and> h > hits existing
                       then AList.update u (existing\<lparr>hits := h\<rparr>) rows_by_url
                       else rows_by_url
                   | None \<Rightarrow>
                       AList.update u
                         \<lparr>artist = a, song = s, rtype = type_key, url = u, hits = h,
                          rating = None, votes = None\<rparr> rows_by_url))"

text \<open>
  \<^verbatim>\<open>if rating is not None: existing.rating = rating\<close> and the same for the votes: two
  assignments to fields of the object the dict holds.
\<close>

definition set_quality :: "rat option \<Rightarrow> int option \<Rightarrow> Row \<Rightarrow> Row" where
  "set_quality r v existing =
     (let e1 = (case r of None \<Rightarrow> existing | Some x \<Rightarrow> existing\<lparr>rating := Some x\<rparr>)
      in (case v of None \<Rightarrow> e1 | Some n \<Rightarrow> e1\<lparr>votes := Some n\<rparr>))"

text \<open>The body of the loop over the rating-ordered list (source lines 246 to 292).\<close>

definition rating_step :: "string \<Rightarrow> tab \<Rightarrow> rows_dict \<Rightarrow> rows_dict" where
  "rating_step type_key t rows_by_url =
     (case tab_id t of
        None \<Rightarrow> rows_by_url
      | Some tid_i \<Rightarrow>
          let a = strip (or_empty (artist_name t));
              s = strip (or_empty (song_name t));
              u = tab_url tid_i
          in (case map_of rows_by_url u of
                Some existing \<Rightarrow>
                  AList.update u (set_quality (tab_rating t) (tab_votes t) existing) rows_by_url
              | None \<Rightarrow>
                  if a = [] \<or> s = [] then rows_by_url
                  else AList.update u
                         \<lparr>artist = a, song = s, rtype = type_key, url = u, hits = 0,
                          rating = tab_rating t, votes = tab_votes t\<rparr> rows_by_url))"

text \<open>
  The keys of \<^verbatim>\<open>TYPE_PARAM\<close>, in the order of the dict literal; the values only go into
  the URLs that are fetched.
\<close>

definition TYPE_KEYS :: "string list" where
  "TYPE_KEYS = [''chords'', ''tab'', ''guitar_pro'', ''ukulele'', ''bass'']"

datatype error = ValueError | FetchError | IOError | AttributeError | TypeError

text \<open>
  \<^verbatim>\<open>_build_rows_for_type\<close>, given what its two fetches return. A fetch or a parse that
  raises is \<open>Inl\<close>; the first one that raises ends the function.
\<close>

definition build_rows_for_type :: "string \<Rightarrow> error + listing \<Rightarrow> error + rows_dict" where
  "build_rows_for_type type_key fetched =
     (if type_key \<notin> set TYPE_KEYS then Inl ValueError
      else (case fetched of
              Inl e \<Rightarrow> Inl e
            | Inr l \<Rightarrow>
                let hits_by_id = build_hits_by_id (hits_list l);
                    rows1 = fold (hits_step type_key hits_by_id) (tabs_hits l) []
                in Inr (fold (rating_step type_key) (tabs_rating l) rows1)))"

section \<open>The live merge: \<^verbatim>\<open>scrape_all\<close>\<close>

text \<open>The body of \<^verbatim>\<open>for url, row in rows_for_type.items()\<close> (source lines 318 to 329).\<close>

definition merge_row :: "string \<times> Row \<Rightarrow> rows_dict \<Rightarrow> rows_dict" where
  "merge_row kv all_rows =
     (case kv of (u, row) \<Rightarrow>
        (case map_of all_rows u of
           Some existing \<Rightarrow>
             let e1 = (if hits row \<noteq> 0 \<and> hits row > hits existing
                       then existing\<lparr>hits := hits row\<rparr> else existing)
             in AList.update u (set_quality (rating row) (votes row) e1) all_rows
         | None \<Rightarrow> AList.update u row all_rows))"

text \<open>
  The loop over the types: \<open>fetched\<close> pairs each type key with what its fetches return.
  The first failure ends the run (nothing in \<^verbatim>\<open>scrape_all\<close> catches it).
\<close>

fun scrape_types :: "(string \<times> (error + listing)) list \<Rightarrow> rows_dict \<Rightarrow> error + rows_dict" where
  "scrape_types [] all_rows = Inr all_rows"
| "scrape_types ((t, f) # rest) all_rows =
     (case build_rows_for_type t f of
        Inl e \<Rightarrow> Inl e
      | Inr rows_for_type \<Rightarrow> scrape_types rest (fold merge_row rows_for_type all_rows))"

text \<open>
  \<^verbatim>\<open>rows_list.sort(key=lambda r: (r.hits, r.rating or 0.0), reverse=True)\<close>. Python's
  sort is stable, and with \<^verbatim>\<open>reverse=True\<close> it reverses the list, sorts it ascending
  and reverses the result, so that equal keys keep their order.
\<close>

definition or_zero :: "rat option \<Rightarrow> rat" where
  "or_zero r = (case r of None \<Rightarrow> 0 | Some x \<Rightarrow> x)"

definition live_key :: "Row \<Rightarrow> int \<times> rat" where
  "live_key r = (hits r, or_zero (rating r))"

definition sort_reverse :: "('a \<Rightarrow> 'k::linorder) \<Rightarrow> 'a list \<Rightarrow> 'a list" where
  "sort_reverse key xs = rev (sort_key key (rev xs))"

record snapshot_meta =
  scraped_at :: string
  types :: "string list"
  row_count :: nat

record snapshot =
  meta :: snapshot_meta
  rows :: "Row list"

text \<open>
  The part of \<^verbatim>\<open>scrape_all\<close> after the freshness test, up to the dict \<^verbatim>\<open>out\<close>:
  \<open>now_iso\<close> is what \<^verbatim>\<open>_now_iso()\<close> returns, \<open>fetch\<close> what the fetches of a type
  return.
\<close>

definition scrape_out :: "string \<Rightarrow> (string \<Rightarrow> error + listing) \<Rightarrow> error + snapshot" where
  "scrape_out now_iso fetch =
     (case scrape_types (map (\<lambda>t. (t, fetch t)) TYPE_KEYS) [] of
        Inl e \<Rightarrow> Inl e
      | Inr all_rows \<Rightarrow>
          let rows_list = sort_reverse live_key (map snd all_rows)
          in Inr \<lparr>meta = \<lparr>scraped_at = now_iso, types = TYPE_KEYS,
                          row_count = length rows_list\<rparr>,
                  rows = rows_list\<rparr>)"

section \<open>Cross-file dedup: \<^verbatim>\<open>merge_ug.py\<close>\<close>

text \<open>
  A row of a raw file is a JSON object read with \<^verbatim>\<open>r.get\<close>: each field is \<open>None\<close>
  when the key is missing or null. The fields have the types of the data contract
  (a row whose \<^verbatim>\<open>hits\<close> is a string is outside this model).
\<close>

record raw_row =
  r_artist :: "ustring option"
  r_song :: "ustring option"
  r_type :: "ustring option"
  r_url :: "ustring option"
  r_hits :: "int option"
  r_rating :: "rat option"
  r_votes :: "int option"

text \<open>\<^verbatim>\<open>(r.get("hits") or 0)\<close>\<close>

definition hits_or_0 :: "raw_row \<Rightarrow> int" where
  "hits_or_0 r = (case r_hits r of None \<Rightarrow> 0 | Some h \<Rightarrow> h)"

text \<open>The body of \<^verbatim>\<open>for r in all_rows\<close> (source lines 25 to 36).\<close>

definition dedup_step :: "raw_row \<Rightarrow> (ustring \<times> raw_row) list \<Rightarrow> (ustring \<times> raw_row) list" where
  "dedup_step r by_url =
     (case r_url r of
        None \<Rightarrow> by_url
      | Some u \<Rightarrow>
          if u = [] then by_url
          else (case map_of by_url u of
                  None \<Rightarrow> AList.update u r by_url
                | Some current \<Rightarrow>
                    if hits_or_0 r > hits_or_0 current then AList.update u r by_url
                    else by_url))"

definition dedup :: "raw_row list \<Rightarrow> (ustring \<times> raw_row) list" where
  "dedup all_rows = fold dedup_step all_rows []"

text \<open>
  \<^verbatim>\<open>(r.get("type") or "", -(r.get("hits") or 0), r.get("artist") or "", r.get("song") or "")\<close>;
  tuples and strings compare lexicographically, characters by code point.
\<close>

definition merge_key :: "raw_row \<Rightarrow> ustring \<times> int \<times> ustring \<times> ustring" where
  "merge_key r = (or_empty (r_type r), - hits_or_0 r, or_empty (r_artist r), or_empty (r_song r))"

definition merged_rows :: "raw_row list \<Rightarrow> raw_row list" where
  "merged_rows all_rows = sort_key merge_key (map snd (dedup all_rows))"

record payload_meta =
  p_scraped_at :: string
  source_files :: "string list"
  p_row_count :: nat

record payload =
  p_meta :: payload_meta
  p_rows :: "raw_row list"

text \<open>What \<^verbatim>\<open>load_rows\<close> returns on one file, when it returns.\<close>

datatype loaded = NotAList | RowList "raw_row list"

text \<open>
  The loop over the files: \<^verbatim>\<open>all_rows.extend(rows)\<close>, \<^verbatim>\<open>SystemExit\<close> on a file
  that is no JSON array; a file that cannot be read or parsed raises (\<open>Inl\<close>).
\<close>

datatype exit = SystemExit | Raised error

fun load_all :: "(string \<times> (error + loaded)) list \<Rightarrow> raw_row list \<Rightarrow> exit + raw_row list" where
  "load_all [] all_rows = Inr all_rows"
| "load_all ((name, c) # fs) all_rows =
     (case c of
        Inl e \<Rightarrow> Inl (Raised e)
      | Inr NotAList \<Rightarrow> Inl SystemExit
      | Inr (RowList rs) \<Rightarrow> load_all fs (all_rows @ rs))"

text \<open>
  \<^verbatim>\<open>main\<close> of \<^verbatim>\<open>merge_ug.py\<close> up to the dict \<^verbatim>\<open>payload\<close>: \<open>raw\<close> is the content
  of \<^verbatim>\<open>data/raw/*.json\<close> by file name, \<open>now_iso\<close> the clock.
\<close>

definition merge_payload :: "string \<Rightarrow> (string \<times> (error + loaded)) list \<Rightarrow> exit + payload" where
  "merge_payload now_iso raw =
     (let files = sort_key fst raw
      in if files = [] then Inl SystemExit
         else (case load_all files [] of
                 Inl e \<Rightarrow> Inl e
               | Inr all_rows \<Rightarrow>
                   let rs = merged_rows all_rows
                   in Inr \<lparr>p_meta = \<lparr>p_scraped_at = now_iso, source_files = map fst files,
                                     p_row_count = length rs\<rparr>,
                           p_rows = rs\<rparr>))"

section \<open>Persistence\<close>

text \<open>
  The file system is a map from paths to contents. Opening a file for writing creates or
  truncates it; a write that fails leaves a prefix of the content behind. What the
  environment does to one write is an input of the model.
\<close>

type_synonym files = "string \<rightharpoonup> string"

datatype write_outcome = OpenFails | WriteFails nat | WriteOk

definition write_file :: "write_outcome \<Rightarrow> string \<Rightarrow> string \<Rightarrow> files \<Rightarrow> error option \<times> files" where
  "write_file w path content fs =
     (case w of
        OpenFails \<Rightarrow> (Some IOError, fs)
      | WriteFails k \<Rightarrow> (Some IOError, fs(path \<mapsto> take k content))
      | WriteOk \<Rightarrow> (None, fs(path \<mapsto> content)))"

text \<open>\<^verbatim>\<open>CACHE_PATH\<close> relative to the project root, and \<^verbatim>\<open>CACHE_PATH.with_suffix(".tmp")\<close>.\<close>

definition CACHE_PATH :: string where
  "CACHE_PATH = ''data/ug_top.json''"

definition tmp_path :: string where
  "tmp_path = ''data/ug_top.tmp''"

text \<open>\<^verbatim>\<open>os.replace(src, dst)\<close>: it fails without a change, or moves the file.\<close>

definition os_replace :: "bool \<Rightarrow> string \<Rightarrow> string \<Rightarrow> files \<Rightarrow> error option \<times> files" where
  "os_replace ok src dst fs =
     (if ok then (None, (fs(dst := fs src))(src := None)) else (Some IOError, fs))"

text \<open>Source lines 345 to 348 of \<^verbatim>\<open>scraper.py\<close>; \<open>content\<close> is what \<^verbatim>\<open>json.dump\<close> writes.\<close>

definition save_live :: "write_outcome \<Rightarrow> bool \<Rightarrow> string \<Rightarrow> files \<Rightarrow> error option \<times> files" where
  "save_live w replace_ok content fs =
     (case write_file w tmp_path content fs of
        (Some e, fs1) \<Rightarrow> (Some e, fs1)
      | (None, fs1) \<Rightarrow> os_replace replace_ok tmp_path CACHE_PATH fs1)"

text \<open>
  Source line 53 of \<^verbatim>\<open>merge_ug.py\<close>: \<^verbatim>\<open>OUT_PATH.write_text(...)\<close> opens the
  canonical path itself for writing. Run from the project root, \<^verbatim>\<open>OUT_PATH\<close> is the
  file \<^verbatim>\<open>CACHE_PATH\<close> names.
\<close>

definition OUT_PATH :: string where
  "OUT_PATH = ''data/ug_top.json''"

definition save_merged :: "write_outcome \<Rightarrow> string \<Rightarrow> files \<Rightarrow> error option \<times> files" where
  "save_merged w content fs = write_file w OUT_PATH content fs"

section \<open>Freshness: \<^verbatim>\<open>_cache_is_fresh\<close>\<close>

text \<open>
  What \<^verbatim>\<open>json.load\<close> returns. An object is the list of its members, with distinct
  keys.
\<close>

datatype json =
    JNull
  | JBool bool
  | JInt int
  | JFloat rat
  | JStr ustring
  | JArr "json list"
  | JObj "(ustring \<times> json) list"

text \<open>Python's truth value of such a value (\<^verbatim>\<open>if not data\<close>, \<^verbatim>\<open>x or y\<close>).\<close>

fun truthy :: "json \<Rightarrow> bool" where
  "truthy JNull = False"
| "truthy (JBool b) = b"
| "truthy (JInt i) = (i \<noteq> 0)"
| "truthy (JFloat x) = (x \<noteq> 0)"
| "truthy (JStr s) = (s \<noteq> [])"
| "truthy (JArr xs) = (xs \<noteq> [])"
| "truthy (JObj kvs) = (kvs \<noteq> [])"

text \<open>\<^verbatim>\<open>x.get(k)\<close>: only a dict has the method.\<close>

fun py_get :: "json \<Rightarrow> ustring \<Rightarrow> error + json" where
  "py_get (JObj kvs) k = Inr (case map_of kvs k of None \<Rightarrow> JNull | Some v \<Rightarrow> v)"
| "py_get _ k = Inl AttributeError"

text \<open>
  \<^verbatim>\<open>_load_existing\<close>: \<open>loads\<close> is \<^verbatim>\<open>json.load\<close> on the file's content, \<open>None\<close> when it
  raises.
\<close>

definition load_existing :: "(string \<Rightarrow> json option) \<Rightarrow> files \<Rightarrow> json option" where
  "load_existing loads fs = (case fs CACHE_PATH of None \<Rightarrow> None | Some c \<Rightarrow> loads c)"

text \<open>
  A \<^verbatim>\<open>datetime\<close> is an instant in whole microseconds, either aware of its offset
  (then the instant is in UTC) or naive; a \<^verbatim>\<open>timedelta\<close> is a number of whole
  microseconds.
\<close>

datatype datetime = Naive int | Aware int

text \<open>\<^verbatim>\<open>ts.replace("Z", "+00:00")\<close>\<close>

definition replace_Z :: "ustring \<Rightarrow> ustring" where
  "replace_Z s = concat (map (\<lambda>c. if c = of_char CHR ''Z'' then utext ''+00:00'' else [c]) s)"

text \<open>
  \<^verbatim>\<open>_cache_is_fresh\<close>: \<open>fromisoformat\<close> is \<^verbatim>\<open>datetime.fromisoformat\<close> (\<open>None\<close> when it
  raises), \<open>timedelta_hours\<close> is the library's \<^verbatim>\<open>timedelta(hours=h)\<close> on a float
  (it rounds to whole microseconds, in floating point), \<open>now\<close> the instant
  \<^verbatim>\<open>_now_utc()\<close> returns. A \<^verbatim>\<open>.get\<close> on a value that is
  no dict raises outside the \<^verbatim>\<open>try\<close>; \<^verbatim>\<open>ts.replace\<close> on a value that is no string
  raises inside it; subtracting a naive \<^verbatim>\<open>datetime\<close> from an aware one raises outside
  it.
\<close>

definition cache_is_fresh ::
  "(string \<Rightarrow> json option) \<Rightarrow> (ustring \<Rightarrow> datetime option) \<Rightarrow> (rat \<Rightarrow> int) \<Rightarrow> int \<Rightarrow> files \<Rightarrow> rat
     \<Rightarrow> error + bool" where
  "cache_is_fresh loads fromisoformat timedelta_hours now fs max_age_hours =
     (case load_existing loads fs of
        None \<Rightarrow> Inr False
      | Some data \<Rightarrow>
          if \<not> truthy data then Inr False
          else (case py_get data (utext ''meta'') of
                  Inl e \<Rightarrow> Inl e
                | Inr m \<Rightarrow>
                    (case py_get (if truthy m then m else JObj []) (utext ''scraped_at'') of
                       Inl e \<Rightarrow> Inl e
                     | Inr ts \<Rightarrow>
                         if \<not> truthy ts then Inr False
                         else (case ts of
                                 JStr s \<Rightarrow>
                                   (case fromisoformat (replace_Z s) of
                                      None \<Rightarrow> Inr False
                                    | Some (Naive t) \<Rightarrow> Inl TypeError
                                    | Some (Aware t) \<Rightarrow>
                                        Inr (now - t \<le> timedelta_hours max_age_hours))
                               | _ \<Rightarrow> Inr False))))"

section \<open>Serialisation: \<^verbatim>\<open>json.dump(out, f, indent=2, sort_keys=False)\<close>\<close>

text \<open>
  A string is written between double quotes; with \<^verbatim>\<open>ensure_ascii\<close>, the default, the
  quote, the backslash and every character outside the range from the space to the tilde
  are escaped: the short escapes for backspace, tab, newline, form feed and return, and
  \<^verbatim>\<open>\uXXXX\<close> with four lower-case hexadecimal digits otherwise, a code point from
  65536 on as its two surrogates.
\<close>

definition hex_digit :: "int \<Rightarrow> char" where
  "hex_digit d = (if d < 10 then char_of (48 + d) else char_of (87 + d))"

definition hex4 :: "int \<Rightarrow> string" where
  "hex4 n = [hex_digit (n div 4096 mod 16), hex_digit (n div 256 mod 16),
             hex_digit (n div 16 mod 16), hex_digit (n mod 16)]"

definition u_escape :: "int \<Rightarrow> string" where
  "u_escape n = CHR 0x5C # CHR ''u'' # hex4 n"

definition escape_char :: "int \<Rightarrow> string" where
  "escape_char c =
     (if c = 34 then [CHR 0x5C, CHR 0x22]
      else if c = 92 then [CHR 0x5C, CHR 0x5C]
      else if c = 8 then [CHR 0x5C, CHR ''b'']
      else if c = 9 then [CHR 0x5C, CHR ''t'']
      else if c = 10 then [CHR 0x5C, CHR ''n'']
      else if c = 12 then [CHR 0x5C, CHR ''f'']
      else if c = 13 then [CHR 0x5C, CHR ''r'']
      else if 32 \<le> c \<and> c \<le> 126 then [char_of c]
      else if c < 65536 then u_escape c
      else u_escape (55296 + (c - 65536) div 1024 mod 1024)
           @ u_escape (56320 + (c - 65536) mod 1024))"

definition json_string :: "ustring \<Rightarrow> string" where
  "json_string s = CHR 0x22 # concat (map escape_char s) @ [CHR 0x22]"

text \<open>
  With \<^verbatim>\<open>indent=2\<close> each item of a non-empty list or dict is on a line of its own,
  indented by two spaces per level, the items separated by a comma at the end of the
  line; a key is followed by a colon and a space; an empty list is \<^verbatim>\<open>[]\<close>, an empty
  dict \<^verbatim>\<open>{}\<close>. An int is written in decimal; a float is written by \<^verbatim>\<open>float.__repr__\<close>,
  the parameter \<open>float_repr\<close>.
\<close>

definition newline_indent :: "nat \<Rightarrow> string" where
  "newline_indent level = CHR 0x0A # replicate (2 * level) CHR '' ''"

fun join_items :: "string \<Rightarrow> string list \<Rightarrow> string" where
  "join_items sep [] = []"
| "join_items sep [x] = x"
| "join_items sep (x # y # ys) = x @ sep @ join_items sep (y # ys)"

definition block :: "char \<Rightarrow> char \<Rightarrow> nat \<Rightarrow> string list \<Rightarrow> string" where
  "block opening closing level items =
     (if items = [] then [opening, closing]
      else opening # newline_indent (Suc level)
           @ join_items (CHR '','' # newline_indent (Suc level)) items
           @ newline_indent level @ [closing])"

fun py_dumps :: "(rat \<Rightarrow> string) \<Rightarrow> nat \<Rightarrow> json \<Rightarrow> string" where
  "py_dumps float_repr level JNull = ''null''"
| "py_dumps float_repr level (JBool b) = (if b then ''true'' else ''false'')"
| "py_dumps float_repr level (JInt i) = str_int i"
| "py_dumps float_repr level (JFloat x) = float_repr x"
| "py_dumps float_repr level (JStr s) = json_string s"
| "py_dumps float_repr level (JArr xs) =
     block CHR ''['' CHR '']'' level (map (py_dumps float_repr (Suc level)) xs)"
| "py_dumps float_repr level (JObj kvs) =
     block CHR ''{'' CHR ''}'' level
       (map (\<lambda>kv. json_string (fst kv) @ '': '' @ py_dumps float_repr (Suc level) (snd kv)) kvs)"

text \<open>\<^verbatim>\<open>asdict(r)\<close>, and the dict \<^verbatim>\<open>out\<close>, as JSON values with their keys in order.\<close>

definition asdict :: "Row \<Rightarrow> json" where
  "asdict r =
     JObj [(utext ''artist'', JStr (artist r)),
           (utext ''song'', JStr (song r)),
           (utext ''type'', JStr (utext (rtype r))),
           (utext ''url'', JStr (utext (url r))),
           (utext ''hits'', JInt (hits r)),
           (utext ''rating'', (case rating r of None \<Rightarrow> JNull | Some x \<Rightarrow> JFloat x)),
           (utext ''votes'', (case votes r of None \<Rightarrow> JNull | Some n \<Rightarrow> JInt n))]"

definition out_json :: "snapshot \<Rightarrow> json" where
  "out_json out =
     JObj [(utext ''meta'',
            JObj [(utext ''scraped_at'', JStr (utext (scraped_at (meta out)))),
                  (utext ''types'', JArr (map (\<lambda>t. JStr (utext t)) (types (meta out)))),
                  (utext ''row_count'', JInt (int (row_count (meta out))))]),
           (utext ''rows'', JArr (map asdict (rows out)))]"

definition dump_snapshot :: "(rat \<Rightarrow> string) \<Rightarrow> snapshot \<Rightarrow> string" where
  "dump_snapshot float_repr out = py_dumps float_repr 0 (out_json out)"

section \<open>The whole of \<^verbatim>\<open>scrape_all\<close> and of \<^verbatim>\<open>merge_ug.main\<close>\<close>

text \<open>
  What the environment gives one run: the parsers and conversions of the libraries, the
  clock, the fetches, and the fate of the write and of the rename.
\<close>

record env =
  env_loads :: "string \<Rightarrow> json option"
  env_fromisoformat :: "ustring \<Rightarrow> datetime option"
  env_timedelta_hours :: "rat \<Rightarrow> int"
  env_float_repr :: "rat \<Rightarrow> string"
  env_now :: int
  env_now_iso :: string
  env_fetch :: "string \<Rightarrow> error + listing"
  env_write :: write_outcome
  env_replace_ok :: bool

datatype scraped = Cached json | Rebuilt snapshot

text \<open>
  \<^verbatim>\<open>scrape_all\<close> from source line 309 on: the fetches and the merge, then the write of
  the temporary file and the rename.
\<close>

definition rebuild :: "env \<Rightarrow> files \<Rightarrow> (error + scraped) \<times> files" where
  "rebuild e fs =
     (case scrape_out (env_now_iso e) (env_fetch e) of
        Inl x \<Rightarrow> (Inl x, fs)
      | Inr out \<Rightarrow>
          (case save_live (env_write e) (env_replace_ok e)
                  (dump_snapshot (env_float_repr e) out) fs of
             (Some x, fs1) \<Rightarrow> (Inl x, fs1)
           | (None, fs1) \<Rightarrow> (Inr (Rebuilt out), fs1)))"

text \<open>\<^verbatim>\<open>scrape_all\<close>, with the test of source lines 304 to 307 before the rebuild.\<close>

definition scrape_all :: "env \<Rightarrow> bool \<Rightarrow> files \<Rightarrow> (error + scraped) \<times> files" where
  "scrape_all e force fs =
     (if force then rebuild e fs
      else (case cache_is_fresh (env_loads e) (env_fromisoformat e) (env_timedelta_hours e)
                    (env_now e) fs 24 of
              Inl x \<Rightarrow> (Inl x, fs)
            | Inr False \<Rightarrow> rebuild e fs
            | Inr True \<Rightarrow>
                (case load_existing (env_loads e) fs of
                   None \<Rightarrow> rebuild e fs
                 | Some existing \<Rightarrow>
                     if truthy existing then (Inr (Cached existing), fs) else rebuild e fs)))"

text \<open>
  \<^verbatim>\<open>main\<close> of \<^verbatim>\<open>merge_ug.py\<close>: \<open>dumps_payload\<close> is \<^verbatim>\<open>json.dumps\<close>, which has
  returned before the file is opened.
\<close>

definition merge_main ::
  "(payload \<Rightarrow> string) \<Rightarrow> string \<Rightarrow> (string \<times> (error + loaded)) list \<Rightarrow> write_outcome \<Rightarrow> files
     \<Rightarrow> (exit + payload) \<times> files" where
  "merge_main dumps_payload now_iso raw w fs =
     (case merge_payload now_iso raw of
        Inl x \<Rightarrow> (Inl x, fs)
      | Inr p \<Rightarrow>
          (case save_merged w (dumps_payload p) fs of
             (Some x, fs1) \<Rightarrow> (Inl (Raised x), fs1)
           | (None, fs1) \<Rightarrow> (Inr p, fs1)))"

section \<open>Notions the properties are stated with\<close>

text \<open>
  An observation is one element of a \<^verbatim>\<open>tabs\<close> list; its identifier is the URL built from
  its id. An observation of the hits-ordered list supplies a hit count when
  \<^verbatim>\<open>hits_by_id\<close> has its id; an observation of the rating-ordered list supplies none.
  \<open>is_named\<close> is the test of source line 218, negated.
\<close>

definition is_named :: "tab \<Rightarrow> bool" where
  "is_named t = (strip (or_empty (artist_name t)) \<noteq> [] \<and> strip (or_empty (song_name t)) \<noteq> [])"

definition hits_of_tabs :: "(int \<rightharpoonup> int) \<Rightarrow> string \<Rightarrow> tab list \<Rightarrow> int list" where
  "hits_of_tabs hb u ts =
     List.map_filter
       (\<lambda>t. case tab_id t of None \<Rightarrow> None | Some i \<Rightarrow> if tab_url i = u then hb i else None) ts"

text \<open>The hit counts that the observations of identifier \<open>u\<close> in one listing supply.\<close>

definition supplied_hits :: "string \<Rightarrow> listing \<Rightarrow> int list" where
  "supplied_hits u l = hits_of_tabs (build_hits_by_id (hits_list l)) u (tabs_hits l)"

text \<open>The same, of the observations that carry both names.\<close>

definition named_hits :: "string \<Rightarrow> listing \<Rightarrow> int list" where
  "named_hits u l = hits_of_tabs (build_hits_by_id (hits_list l)) u (filter is_named (tabs_hits l))"

text \<open>The maximum of a list of hit counts, 0 for the empty list.\<close>

fun max_or_0 :: "int list \<Rightarrow> int" where
  "max_or_0 [] = 0"
| "max_or_0 (h # hs) = fold max hs h"

text \<open>The listings of the fetches that succeeded.\<close>

definition listings_of :: "(string \<times> (error + listing)) list \<Rightarrow> listing list" where
  "listings_of ins = List.map_filter (\<lambda>p. case snd p of Inl e \<Rightarrow> None | Inr l \<Rightarrow> Some l) ins"

text \<open>No hit count of the \<^verbatim>\<open>hits\<close> list of the page is negative.\<close>

definition nonneg_hits :: "listing \<Rightarrow> bool" where
  "nonneg_hits l = list_all (\<lambda>h. case snd h of None \<Rightarrow> True | Some v \<Rightarrow> 0 \<le> v) (hits_list l)"

definition nonneg_map :: "(int \<rightharpoonup> int) \<Rightarrow> bool" where
  "nonneg_map hb = (\<forall>i h. hb i = Some h \<longrightarrow> 0 \<le> h)"

text \<open>The hit count a mapping holds for an identifier, 0 when it holds no record.\<close>

definition base_hits :: "rows_dict \<Rightarrow> string \<Rightarrow> int" where
  "base_hits m u = (case map_of m u of None \<Rightarrow> 0 | Some r \<Rightarrow> hits r)"

text \<open>What one element of the hits-ordered list can add to the hit count of \<open>u\<close>.\<close>

definition contrib :: "(int \<rightharpoonup> int) \<Rightarrow> string \<Rightarrow> tab \<Rightarrow> int" where
  "contrib hb u t =
     (case tab_id t of None \<Rightarrow> 0
      | Some i \<Rightarrow> if is_named t \<and> tab_url i = u then get_hits hb i else 0)"

text \<open>
  \<open>keeps r r'\<close>: the record \<open>r'\<close> has the identity fields of \<open>r\<close> and at least its hits.
  \<open>survives m m'\<close>: every record of \<open>m\<close> is in \<open>m'\<close> under its key, kept in that sense.
\<close>

definition keeps :: "Row \<Rightarrow> Row \<Rightarrow> bool" where
  "keeps r r' = (artist r' = artist r \<and> song r' = song r \<and> rtype r' = rtype r \<and> url r' = url r
     \<and> hits r \<le> hits r')"

definition survives :: "rows_dict \<Rightarrow> rows_dict \<Rightarrow> bool" where
  "survives m m' = (\<forall>u r. map_of m u = Some r \<longrightarrow> (\<exists>r'. map_of m' u = Some r' \<and> keeps r r'))"

text \<open>Each record is stored under its own URL, and has both names.\<close>

definition keyed :: "rows_dict \<Rightarrow> bool" where
  "keyed m = (\<forall>kv\<in>set m. url (snd kv) = fst kv)"

definition all_named :: "rows_dict \<Rightarrow> bool" where
  "all_named m = (\<forall>kv\<in>set m. artist (snd kv) \<noteq> [] \<and> song (snd kv) \<noteq> [])"

text \<open>The test of source line 27 of \<^verbatim>\<open>merge_ug.py\<close>, negated.\<close>

definition has_url :: "raw_row \<Rightarrow> bool" where
  "has_url r = (case r_url r of None \<Rightarrow> False | Some u \<Rightarrow> u \<noteq> [])"


subsection \<open>Sample inputs\<close>

definition named_tab :: "int \<Rightarrow> tab" where
  "named_tab i = \<lparr>tab_id = Some i, artist_name = Some (utext ''X''),
     song_name = Some (utext ''Y''),
     tab_rating = None, tab_votes = None\<rparr>"

definition bare_tab :: "int \<Rightarrow> rat option \<Rightarrow> tab" where
  "bare_tab i q = \<lparr>tab_id = Some i, artist_name = None, song_name = None,
     tab_rating = q, tab_votes = None\<rparr>"

definition sample_row :: "string \<Rightarrow> int \<Rightarrow> int \<Rightarrow> rat option \<Rightarrow> Row" where
  "sample_row ty i h q = \<lparr>artist = utext ''X'', song = utext ''Y'', rtype = ty, url = tab_url i,
     hits = h, rating = q, votes = None\<rparr>"

text \<open>Tab 42 is listed under two types, with 10 and with 50 hits, and rated 4.5.\<close>

definition two_types :: "(string \<times> (error + listing)) list" where
  "two_types =
     [(''chords'', Inr \<lparr>tabs_hits = [named_tab 42], hits_list = [(Some 42, Some 10)],
                        tabs_rating = []\<rparr>),
      (''tab'', Inr \<lparr>tabs_hits = [named_tab 42], hits_list = [(Some 42, Some 50)],
                     tabs_rating = [bare_tab 42 (Some (9 / 2))]\<rparr>)]"

text \<open>
  Tab 42 has 100 hits, but the hits-ordered list has it without names; the rating-ordered
  list has the names.
\<close>

definition nameless_in_hits :: "(string \<times> (error + listing)) list" where
  "nameless_in_hits =
     [(''tab'', Inr \<lparr>tabs_hits = [bare_tab 42 None], hits_list = [(Some 42, Some 100)],
                     tabs_rating = [named_tab 42]\<rparr>)]"

text \<open>Tab 7 is listed under two types, with -5 and with 0 hits.\<close>

definition negative_hits :: "(string \<times> (error + listing)) list" where
  "negative_hits =
     [(''chords'', Inr \<lparr>tabs_hits = [named_tab 7], hits_list = [(Some 7, Some (- 5))],
                        tabs_rating = []\<rparr>),
      (''tab'', Inr \<lparr>tabs_hits = [named_tab 7], hits_list = [(Some 7, Some 0)],
                     tabs_rating = []\<rparr>)]"

text \<open>A fetch that answers as \<open>two_types\<close> does, and with empty lists for the other types.\<close>

definition empty_listing :: listing where
  "empty_listing = \<lparr>tabs_hits = [], hits_list = [], tabs_rating = []\<rparr>"

definition fetch_of :: "(string \<times> (error + listing)) list \<Rightarrow> string \<Rightarrow> error + listing" where
  "fetch_of ins t = (case map_of ins t of None \<Rightarrow> Inr empty_listing | Some f \<Rightarrow> f)"

text \<open>A later observation of tab 42 under other names, with a rating and votes.\<close>

definition renamed_tab :: tab where
  "renamed_tab = \<lparr>tab_id = Some 42, artist_name = Some (utext ''Other''),
     song_name = Some (utext ''Name''), tab_rating = Some 4, tab_votes = Some 3\<rparr>"

definition renamed_row :: Row where
  "renamed_row = \<lparr>artist = utext ''Other'', song = utext ''Name'', rtype = ''tab'',
     url = tab_url 42, hits = 50, rating = Some 4, votes = Some 3\<rparr>"

text \<open>Raw rows of the cross-file dedup.\<close>

definition sample_raw :: "string \<Rightarrow> string option \<Rightarrow> int option \<Rightarrow> raw_row" where
  "sample_raw a u h = \<lparr>r_artist = Some (utext a), r_song = Some (utext ''S''),
     r_type = Some (utext ''tab''), r_url = map_option utext u, r_hits = h, r_rating = None,
     r_votes = None\<rparr>"

text \<open>A chords tab with 5 hits and a tab with 10 hits.\<close>

definition by_category :: "(string \<times> (error + listing)) list" where
  "by_category =
     [(''chords'', Inr \<lparr>tabs_hits = [named_tab 1], hits_list = [(Some 1, Some 5)],
                        tabs_rating = []\<rparr>),
      (''tab'', Inr \<lparr>tabs_hits = [named_tab 2], hits_list = [(Some 2, Some 10)],
                     tabs_rating = []\<rparr>)]"

text \<open>
  Two raw files: the first has two rows without a usable URL, the second three rows of one
  URL with 50, 100 and 100 hits.
\<close>

definition raw_files :: "(string \<times> (error + loaded)) list" where
  "raw_files =
     [(''b.json'', Inr (RowList [sample_raw ''B'' (Some ''u'') (Some 50),
                                 sample_raw ''A'' (Some ''u'') (Some 100),
                                 sample_raw ''C'' (Some ''u'') (Some 100)])),
      (''a.json'', Inr (RowList [sample_raw ''N'' None (Some 7),
                                 sample_raw ''E'' (Some []) (Some 9)]))]"

text \<open>A name that is one no-break space, which \<^verbatim>\<open>str.strip\<close> removes.\<close>

definition blank_tab :: "int \<Rightarrow> tab" where
  "blank_tab i = \<lparr>tab_id = Some i, artist_name = Some [160], song_name = Some (utext ''Y''),
     tab_rating = None, tab_votes = None\<rparr>"

text \<open>
  Stand-ins for the parsers and conversions of the libraries. File contents are named by
  what they hold; two timestamps parse, one with an offset and one without, to the
  instant 86400 s; a max-age in hours is converted exactly and rounded down.
\<close>

definition snapshot_json :: "json \<Rightarrow> json" where
  "snapshot_json ts =
     JObj [(utext ''meta'', JObj [(utext ''scraped_at'', ts), (utext ''row_count'', JInt 0)]),
           (utext ''rows'', JArr [])]"

definition sample_loads :: "string \<Rightarrow> json option" where
  "sample_loads c =
     (if c = ''snapshot'' then Some (snapshot_json (JStr (utext ''2026-01-01T00:00:00Z'')))
      else if c = ''snapshot, timestamp without offset''
        then Some (snapshot_json (JStr (utext ''2026-01-01T00:00:00'')))
      else if c = ''snapshot, meta is a list'' then Some (JObj [(utext ''meta'', JArr [JInt 1])])
      else if c = ''[1]'' then Some (JArr [JInt 1])
      else None)"

definition sample_fromisoformat :: "ustring \<Rightarrow> datetime option" where
  "sample_fromisoformat s =
     (if s = utext ''2026-01-01T00:00:00+00:00'' then Some (Aware 86400000000)
      else if s = utext ''2026-01-01T00:00:00'' then Some (Naive 86400000000)
      else None)"

definition sample_timedelta_hours :: "rat \<Rightarrow> int" where
  "sample_timedelta_hours h = \<lfloor>h * 3600000000\<rfloor>"

definition file_with :: "string \<Rightarrow> files" where
  "file_with c = Map.empty(CACHE_PATH \<mapsto> c)"

text \<open>
  Two environments that differ in the clock only; a float is written by a stand-in for
  \<^verbatim>\<open>float.__repr__\<close> that knows 4.5.
\<close>

definition sample_float_repr :: "rat \<Rightarrow> string" where
  "sample_float_repr x = (if x = 9 / 2 then ''4.5'' else ''0.0'')"

definition sample_env :: "int \<Rightarrow> string \<Rightarrow> env" where
  "sample_env t stamp =
     \<lparr>env_loads = sample_loads, env_fromisoformat = sample_fromisoformat,
      env_timedelta_hours = sample_timedelta_hours, env_float_repr = sample_float_repr,
      env_now = t, env_now_iso = stamp, env_fetch = fetch_of two_types,
      env_write = WriteOk, env_replace_ok = True\<rparr>"

text \<open>
  The text of a snapshot file before the timestamp string, and the text after it, which
  holds the types, the row count and the rows.
\<close>

definition snapshot_prefix :: string where
  "snapshot_prefix =
     CHR ''{'' # newline_indent 1 @ json_string (utext ''meta'') @ '': ''
     @ CHR ''{'' # newline_indent 2 @ json_string (utext ''scraped_at'') @ '': ''"

definition snapshot_suffix :: "(rat \<Rightarrow> string) \<Rightarrow> snapshot \<Rightarrow> string" where
  "snapshot_suffix float_repr out =
     CHR '','' # newline_indent 2
     @ json_string (utext ''types'') @ '': ''
     @ py_dumps float_repr 2 (JArr (map (\<lambda>t. JStr (utext t)) (types (meta out))))
     @ CHR '','' # newline_indent 2
     @ json_string (utext ''row_count'') @ '': ''
     @ py_dumps float_repr 2 (JInt (int (row_count (meta out))))
     @ newline_indent 1 @ ''}''
     @ CHR '','' # newline_indent 1
     @ json_string (utext ''rows'') @ '': ''
     @ py_dumps float_repr 1 (JArr (map asdict (rows out)))
     @ newline_indent 0 @ ''}''"

section \<open>Lemmas on the steps of the live merge\<close>

lemma set_quality_fields [simp]:
  "artist (set_quality q v e) = artist e"
  "song (set_quality q v e) = song e"
  "rtype (set_quality q v e) = rtype e"
  "url (set_quality q v e) = url e"
  "hits (set_quality q v e) = hits e"
  by (simp_all add: set_quality_def split: option.splits)

lemma fold_invariant:
  "P m \<Longrightarrow> (\<And>x m. P m \<Longrightarrow> P (f x m)) \<Longrightarrow> P (fold f xs m)"
  by (induction xs arbitrary: m) auto

lemma set_update_subset: "set (AList.update k v al) \<subseteq> insert (k, v) (set al)"
  by (induction al) auto

subsection \<open>Keys stay distinct\<close>

lemma distinct_hits_step:
  "distinct (map fst m) \<Longrightarrow> distinct (map fst (hits_step ty hb t m))"
  by (simp add: hits_step_def Let_def AList.distinct_update split: option.splits)

lemma distinct_rating_step:
  "distinct (map fst m) \<Longrightarrow> distinct (map fst (rating_step ty t m))"
  by (simp add: rating_step_def Let_def AList.distinct_update split: option.splits)

lemma distinct_merge_row:
  "distinct (map fst m) \<Longrightarrow> distinct (map fst (merge_row kv m))"
  by (simp add: merge_row_def Let_def AList.distinct_update split: option.splits prod.splits)

lemma distinct_build_rows:
  "build_rows_for_type ty f = Inr m \<Longrightarrow> distinct (map fst m)"
  by (auto simp: build_rows_for_type_def Let_def split: if_splits sum.splits
      intro!: fold_invariant [where P = "\<lambda>m. distinct (map fst m)"]
        distinct_hits_step distinct_rating_step)

lemma scrape_types_Cons:
  assumes "scrape_types (a # ins) m = Inr m'"
  obtains rs where "build_rows_for_type (fst a) (snd a) = Inr rs"
    and "scrape_types ins (fold merge_row rs m) = Inr m'"
  using assms by (cases a) (auto split: sum.splits)

lemma distinct_scrape_types:
  "distinct (map fst m) \<Longrightarrow> scrape_types ins m = Inr m' \<Longrightarrow> distinct (map fst m')"
proof (induction ins arbitrary: m)
  case Nil
  then show ?case by simp
next
  case (Cons a ins)
  from Cons.prems(2) obtain rs where
    rest: "scrape_types ins (fold merge_row rs m) = Inr m'"
    by (rule scrape_types_Cons)
  have "distinct (map fst (fold merge_row rs m))"
    using Cons.prems(1) by (rule fold_invariant) (rule distinct_merge_row)
  then show ?case using rest by (rule Cons.IH)
qed

subsection \<open>Records stay under their URL, and named\<close>

lemma keyed_update: "keyed m \<Longrightarrow> url r = u \<Longrightarrow> keyed (AList.update u r m)"
  using set_update_subset [of u r m] by (auto simp: keyed_def)

lemma keyed_lookup: "keyed m \<Longrightarrow> map_of m u = Some r \<Longrightarrow> url r = u"
  using map_of_SomeD [of m u r] by (fastforce simp: keyed_def)

lemma keyed_hits_step: "keyed m \<Longrightarrow> keyed (hits_step ty hb t m)"
  by (auto simp: hits_step_def Let_def split: option.splits intro!: keyed_update dest: keyed_lookup)

lemma keyed_rating_step: "keyed m \<Longrightarrow> keyed (rating_step ty t m)"
  by (auto simp: rating_step_def Let_def split: option.splits intro!: keyed_update dest: keyed_lookup)

lemma keyed_merge_row: "keyed m \<Longrightarrow> url (snd kv) = fst kv \<Longrightarrow> keyed (merge_row kv m)"
  by (auto simp: merge_row_def Let_def split: option.splits prod.splits
      intro!: keyed_update dest: keyed_lookup)

lemma keyed_fold_merge_row: "keyed rs \<Longrightarrow> keyed m \<Longrightarrow> keyed (fold merge_row rs m)"
proof (induction rs arbitrary: m)
  case Nil
  then show ?case by simp
next
  case (Cons a rs)
  have "keyed (merge_row a m)" using Cons.prems by (intro keyed_merge_row) (simp_all add: keyed_def)
  moreover have "keyed rs" using Cons.prems(1) by (simp add: keyed_def)
  ultimately show ?case using Cons.IH by simp
qed

lemma keyed_build_rows: "build_rows_for_type ty f = Inr m \<Longrightarrow> keyed m"
  by (auto simp: build_rows_for_type_def Let_def keyed_def [of "[]"] split: if_splits sum.splits
      intro!: fold_invariant [where P = keyed] keyed_hits_step keyed_rating_step)

lemma keyed_scrape_types: "keyed m \<Longrightarrow> scrape_types ins m = Inr m' \<Longrightarrow> keyed m'"
proof (induction ins arbitrary: m)
  case Nil
  then show ?case by simp
next
  case (Cons a ins)
  from Cons.prems(2) obtain rs where rs: "build_rows_for_type (fst a) (snd a) = Inr rs"
    and rest: "scrape_types ins (fold merge_row rs m) = Inr m'"
    by (rule scrape_types_Cons)
  have "keyed (fold merge_row rs m)"
    using keyed_build_rows [OF rs] Cons.prems(1) by (rule keyed_fold_merge_row)
  then show ?case using rest by (rule Cons.IH)
qed

lemma named_update:
  "all_named m \<Longrightarrow> artist r \<noteq> [] \<Longrightarrow> song r \<noteq> [] \<Longrightarrow> all_named (AList.update u r m)"
  using set_update_subset [of u r m] by (auto simp: all_named_def)

lemma named_lookup: "all_named m \<Longrightarrow> map_of m u = Some r \<Longrightarrow> artist r \<noteq> [] \<and> song r \<noteq> []"
  using map_of_SomeD [of m u r] by (fastforce simp: all_named_def)

lemma named_hits_step: "all_named m \<Longrightarrow> all_named (hits_step ty hb t m)"
  by (auto simp: hits_step_def Let_def split: option.splits intro!: named_update dest: named_lookup)

lemma named_rating_step: "all_named m \<Longrightarrow> all_named (rating_step ty t m)"
  by (auto simp: rating_step_def Let_def split: option.splits intro!: named_update dest: named_lookup)

lemma named_merge_row:
  "all_named m \<Longrightarrow> artist (snd kv) \<noteq> [] \<Longrightarrow> song (snd kv) \<noteq> [] \<Longrightarrow> all_named (merge_row kv m)"
  by (auto simp: merge_row_def Let_def split: option.splits prod.splits
      intro!: named_update dest: named_lookup)

lemma named_fold_merge_row: "all_named rs \<Longrightarrow> all_named m \<Longrightarrow> all_named (fold merge_row rs m)"
proof (induction rs arbitrary: m)
  case Nil
  then show ?case by simp
next
  case (Cons a rs)
  have "all_named (merge_row a m)"
    using Cons.prems by (intro named_merge_row) (simp_all add: all_named_def)
  moreover have "all_named rs" using Cons.prems(1) by (simp add: all_named_def)
  ultimately show ?case using Cons.IH by simp
qed

lemma named_build_rows: "build_rows_for_type ty f = Inr m \<Longrightarrow> all_named m"
  by (auto simp: build_rows_for_type_def Let_def all_named_def [of "[]"] split: if_splits sum.splits
      intro!: fold_invariant [where P = all_named] named_hits_step named_rating_step)

lemma named_scrape_types: "all_named m \<Longrightarrow> scrape_types ins m = Inr m' \<Longrightarrow> all_named m'"
proof (induction ins arbitrary: m)
  case Nil
  then show ?case by simp
next
  case (Cons a ins)
  from Cons.prems(2) obtain rs where rs: "build_rows_for_type (fst a) (snd a) = Inr rs"
    and rest: "scrape_types ins (fold merge_row rs m) = Inr m'"
    by (rule scrape_types_Cons)
  have "all_named (fold merge_row rs m)"
    using named_build_rows [OF rs] Cons.prems(1) by (rule named_fold_merge_row)
  then show ?case using rest by (rule Cons.IH)
qed

subsection \<open>Records survive each step\<close>

lemma survives_refl: "survives m m"
  by (simp add: survives_def keeps_def)

lemma survives_trans: "survives a b \<Longrightarrow> survives b c \<Longrightarrow> survives a c"
  unfolding survives_def keeps_def by fastforce

lemma survives_hits_step: "survives m (hits_step ty hb t m)"
  by (auto simp: survives_def keeps_def hits_step_def Let_def AList.update_conv'
      split: option.splits)

lemma survives_rating_step: "survives m (rating_step ty t m)"
  by (auto simp: survives_def keeps_def rating_step_def Let_def AList.update_conv'
      split: option.splits)

lemma survives_merge_row: "survives m (merge_row kv m)"
  by (auto simp: survives_def keeps_def merge_row_def Let_def AList.update_conv'
      split: option.splits prod.splits)

lemma survives_fold: "(\<And>x m. survives m (f x m)) \<Longrightarrow> survives m (fold f xs m)"
proof (induction xs arbitrary: m)
  case Nil
  show ?case by (simp add: survives_refl)
next
  case (Cons x xs)
  have "survives m (f x m)" by (rule Cons.prems)
  moreover have "survives (f x m) (fold f xs (f x m))" by (rule Cons.IH) (rule Cons.prems)
  ultimately show ?case by (simp add: survives_trans)
qed

lemma survives_scrape_types: "scrape_types ins m = Inr m' \<Longrightarrow> survives m m'"
proof (induction ins arbitrary: m)
  case Nil
  then show ?case by (simp add: survives_refl)
next
  case (Cons a ins)
  from Cons.prems obtain rs where
    rest: "scrape_types ins (fold merge_row rs m) = Inr m'"
    by (rule scrape_types_Cons)
  have "survives m (fold merge_row rs m)" by (rule survives_fold) (rule survives_merge_row)
  moreover have "survives (fold merge_row rs m) m'" using rest by (rule Cons.IH)
  ultimately show ?case by (rule survives_trans)
qed

subsection \<open>The hit count is a maximum\<close>

lemma nonneg_build_hits_by_id: "nonneg_hits l \<Longrightarrow> nonneg_map (build_hits_by_id (hits_list l))"
  unfolding build_hits_by_id_def nonneg_hits_def
proof (induction "hits_list l" arbitrary: l rule: rev_induct)
  case Nil
  then show ?case by (simp add: nonneg_map_def)
next
  case (snoc x xs)
  have "nonneg_map (fold hits_entry_step xs Map.empty)"
    using snoc.hyps(1) [of "l\<lparr>hits_list := xs\<rparr>"] snoc.prems snoc.hyps(2) [symmetric] by simp
  then show ?case using snoc.prems
    by (auto simp: snoc.hyps(2) [symmetric] nonneg_map_def hits_entry_step_def split: option.splits prod.splits)
qed

lemma contrib_nonneg: "nonneg_map hb \<Longrightarrow> 0 \<le> contrib hb u t"
  by (auto simp: contrib_def get_hits_def nonneg_map_def split: option.splits)

lemma base_hits_step:
  "nonneg_map hb \<Longrightarrow> 0 \<le> base_hits m u \<Longrightarrow>
   base_hits (hits_step ty hb t m) u = max (base_hits m u) (contrib hb u t)"
  using contrib_nonneg [of hb u t]
  by (auto simp: base_hits_def hits_step_def contrib_def is_named_def Let_def AList.update_conv'
      split: option.splits)

lemma base_rating_step: "base_hits (rating_step ty t m) u = base_hits m u"
  by (auto simp: base_hits_def rating_step_def Let_def AList.update_conv' split: option.splits)

lemma base_merge_row:
  "0 \<le> hits row \<Longrightarrow> 0 \<le> base_hits m u \<Longrightarrow>
   base_hits (merge_row (k, row) m) u = (if k = u then max (base_hits m u) (hits row) else base_hits m u)"
  by (auto simp: base_hits_def merge_row_def Let_def AList.update_conv' split: option.splits)

lemma fold_max_ge: "(b::int) \<le> fold max xs b"
proof (induction xs arbitrary: b)
  case Nil
  show ?case by simp
next
  case (Cons a xs)
  have "b \<le> max a b" by simp
  also have "\<dots> \<le> fold max xs (max a b)" by (rule Cons.IH)
  finally show ?case by simp
qed

lemma fold_max_out: "fold max xs (max a b) = max (a::int) (fold max xs b)"
proof (induction xs arbitrary: b)
  case Nil
  show ?case by simp
next
  case (Cons x xs)
  have "fold max (x # xs) (max a b) = fold max xs (max a (max x b))"
    by (simp add: max.left_commute)
  also have "\<dots> = max a (fold max xs (max x b))" by (rule Cons.IH)
  finally show ?case by simp
qed

lemma max_or_0_nonneg: "\<forall>h\<in>set hs. 0 \<le> h \<Longrightarrow> max_or_0 hs = fold max hs 0"
  by (cases hs) (simp_all add: max_absorb1)

lemma base_fold_hits_step:
  "nonneg_map hb \<Longrightarrow> 0 \<le> base_hits m u \<Longrightarrow>
   base_hits (fold (hits_step ty hb) ts m) u = fold max (map (contrib hb u) ts) (base_hits m u)"
proof (induction ts arbitrary: m)
  case Nil
  show ?case by simp
next
  case (Cons t ts)
  have s: "base_hits (hits_step ty hb t m) u = max (base_hits m u) (contrib hb u t)"
    using Cons.prems by (rule base_hits_step)
  then have "0 \<le> base_hits (hits_step ty hb t m) u" using Cons.prems(2) by simp
  from Cons.IH [OF Cons.prems(1) this] show ?case by (simp add: s max.commute)
qed

lemma base_fold_rating_step:
  "base_hits (fold (rating_step ty) ts m) u = base_hits m u"
  by (induction ts arbitrary: m) (simp_all add: base_rating_step)

lemma fold_max_contrib:
  "nonneg_map hb \<Longrightarrow> 0 \<le> b \<Longrightarrow>
   fold max (map (contrib hb u) ts) b = fold max (hits_of_tabs hb u (filter is_named ts)) b"
proof (induction ts arbitrary: b)
  case Nil
  show ?case by (simp add: hits_of_tabs_def map_filter_simps)
next
  case (Cons t ts)
  have c: "0 \<le> contrib hb u t" using Cons.prems(1) by (rule contrib_nonneg)
  have b': "0 \<le> max (contrib hb u t) b" using Cons.prems(2) by simp
  note ih = Cons.IH [OF Cons.prems(1) b']
  show ?case
  proof (cases "is_named t \<and> (\<exists>i h. tab_id t = Some i \<and> tab_url i = u \<and> hb i = Some h)")
    case True
    then show ?thesis using ih
      by (auto simp: hits_of_tabs_def map_filter_simps contrib_def get_hits_def)
  next
    case False
    then have "contrib hb u t = 0"
      by (auto simp: contrib_def get_hits_def split: option.splits)
    moreover have "hits_of_tabs hb u (filter is_named (t # ts)) = hits_of_tabs hb u (filter is_named ts)"
      using False by (auto simp: hits_of_tabs_def map_filter_simps split: option.splits)
    ultimately show ?thesis using ih Cons.prems(2) by (simp add: max_def)
  qed
qed

lemma base_build_rows:
  assumes "build_rows_for_type ty (Inr l) = Inr rs" "nonneg_hits l"
  shows "base_hits rs u = fold max (named_hits u l) 0"
proof -
  let ?hb = "build_hits_by_id (hits_list l)"
  have nn: "nonneg_map ?hb" using assms(2) by (rule nonneg_build_hits_by_id)
  have rs: "rs = fold (rating_step ty) (tabs_rating l) (fold (hits_step ty ?hb) (tabs_hits l) [])"
    using assms(1) by (simp add: build_rows_for_type_def Let_def split: if_splits)
  have "base_hits rs u = fold max (map (contrib ?hb u) (tabs_hits l)) 0"
    unfolding rs base_fold_rating_step
    using base_fold_hits_step [OF nn, of "[]" u ty "tabs_hits l"] by (simp add: base_hits_def)
  also have "\<dots> = fold max (named_hits u l) 0"
    unfolding named_hits_def using nn by (rule fold_max_contrib) simp
  finally show ?thesis .
qed


lemma hits_of_tabs_nonneg: "nonneg_map hb \<Longrightarrow> h \<in> set (hits_of_tabs hb u ts) \<Longrightarrow> 0 \<le> h"
  by (auto simp: hits_of_tabs_def map_filter_def nonneg_map_def split: option.splits if_splits)

lemma named_hits_nonneg: "nonneg_hits l \<Longrightarrow> h \<in> set (named_hits u l) \<Longrightarrow> 0 \<le> h"
  unfolding named_hits_def by (rule hits_of_tabs_nonneg [OF nonneg_build_hits_by_id])

lemma base_fold_merge_row:
  "distinct (map fst rs) \<Longrightarrow> \<forall>kv\<in>set rs. 0 \<le> hits (snd kv) \<Longrightarrow> 0 \<le> base_hits m u \<Longrightarrow>
   base_hits (fold merge_row rs m) u = max (base_hits m u) (base_hits rs u)"
proof (induction rs arbitrary: m)
  case Nil
  then show ?case by (simp add: base_hits_def)
next
  case (Cons a rs)
  obtain k row where a: "a = (k, row)" by (cases a)
  have row: "0 \<le> hits row" using Cons.prems(2) by (simp add: a)
  have s: "base_hits (merge_row (k, row) m) u =
      (if k = u then max (base_hits m u) (hits row) else base_hits m u)"
    using row Cons.prems(3) by (rule base_merge_row)
  then have nn: "0 \<le> base_hits (merge_row (k, row) m) u"
    using Cons.prems(3) row by (simp add: le_max_iff_disj)
  have ih: "base_hits (fold merge_row rs (merge_row (k, row) m)) u =
      max (base_hits (merge_row (k, row) m) u) (base_hits rs u)"
    using Cons.prems(1,2) nn by (intro Cons.IH) simp_all
  show ?case
  proof (cases "k = u")
    case True
    then have "map_of rs u = None" using Cons.prems(1) by (simp add: a map_of_eq_None_iff)
    then have "base_hits rs u = 0" by (simp add: base_hits_def)
    then show ?thesis using ih s True Cons.prems(3) row by (simp add: a base_hits_def)
  next
    case False
    then show ?thesis using ih s by (simp add: a base_hits_def)
  qed
qed

lemma base_scrape_types:
  "scrape_types ins m = Inr m' \<Longrightarrow> list_all nonneg_hits (listings_of ins) \<Longrightarrow> 0 \<le> base_hits m u \<Longrightarrow>
   base_hits m' u = fold max (concat (map (named_hits u) (listings_of ins))) (base_hits m u)"
proof (induction ins arbitrary: m)
  case Nil
  then show ?case by (simp add: listings_of_def)
next
  case (Cons a ins)
  obtain t f where a: "a = (t, f)" by (cases a)
  from Cons.prems(1) obtain rs where rs: "build_rows_for_type t f = Inr rs"
    and rest: "scrape_types ins (fold merge_row rs m) = Inr m'"
    unfolding a by (auto split: sum.splits)
  from rs obtain l where f: "f = Inr l"
    by (cases f) (auto simp: build_rows_for_type_def split: if_splits)
  have ls: "listings_of (a # ins) = l # listings_of ins" by (simp add: listings_of_def a f)
  have nl: "nonneg_hits l" and nls: "list_all nonneg_hits (listings_of ins)"
    using Cons.prems(2) by (simp_all add: ls)
  have per: "\<And>v. base_hits rs v = fold max (named_hits v l) 0"
    using rs nl unfolding f by (rule base_build_rows)
  have d: "distinct (map fst rs)" using rs by (rule distinct_build_rows)
  have rows: "\<forall>kv\<in>set rs. 0 \<le> hits (snd kv)"
  proof
    fix kv assume "kv \<in> set rs"
    then have "map_of rs (fst kv) = Some (snd kv)" using d by simp
    then have "hits (snd kv) = base_hits rs (fst kv)" by (simp add: base_hits_def)
    then show "0 \<le> hits (snd kv)" using per [of "fst kv"] fold_max_ge [of 0 "named_hits (fst kv) l"] by simp
  qed
  have m1: "base_hits (fold merge_row rs m) u = max (base_hits m u) (base_hits rs u)"
    using d rows Cons.prems(3) by (rule base_fold_merge_row)
  also have "\<dots> = fold max (named_hits u l) (base_hits m u)"
    using fold_max_out [of "named_hits u l" "base_hits m u" 0] Cons.prems(3) by (simp add: per)
  finally have m1': "base_hits (fold merge_row rs m) u = fold max (named_hits u l) (base_hits m u)" .
  then have "0 \<le> base_hits (fold merge_row rs m) u"
    using fold_max_ge [of "base_hits m u" "named_hits u l"] Cons.prems(3) by simp
  from Cons.IH [OF rest nls this] show ?case by (simp add: ls m1')
qed

lemma listings_nonneg:
  "list_all nonneg_hits ls \<Longrightarrow> h \<in> set (concat (map (named_hits u) ls)) \<Longrightarrow> 0 \<le> h"
  by (auto simp: list_all_iff dest: named_hits_nonneg)

lemma final_hits:
  assumes "scrape_types ins [] = Inr all_rows" "map_of all_rows u = Some r"
    "list_all nonneg_hits (listings_of ins)"
  shows "hits r = max_or_0 (concat (map (named_hits u) (listings_of ins)))"
proof -
  have "base_hits all_rows u = fold max (concat (map (named_hits u) (listings_of ins))) (base_hits [] u)"
    using assms(1,3) by (rule base_scrape_types) (simp add: base_hits_def)
  moreover have "max_or_0 (concat (map (named_hits u) (listings_of ins)))
      = fold max (concat (map (named_hits u) (listings_of ins))) 0"
    using listings_nonneg [OF assms(3)] by (intro max_or_0_nonneg) blast
  ultimately show ?thesis using assms(2) by (simp add: base_hits_def)
qed

section \<open>Lemmas on the cross-file dedup and on sorting\<close>

lemma distinct_dedup_step:
  "distinct (map fst m) \<Longrightarrow> distinct (map fst (dedup_step r m))"
  by (simp add: dedup_step_def AList.distinct_update split: option.splits)

lemma distinct_dedup: "distinct (map fst (dedup rs))"
  unfolding dedup_def by (rule fold_invariant) (simp_all add: distinct_dedup_step)

lemma dedup_snoc: "dedup (rs @ [r]) = dedup_step r (dedup rs)"
  by (simp add: dedup_def)

lemma dedup_step_other:
  "r_url r \<noteq> Some u \<Longrightarrow> map_of (dedup_step r m) u = map_of m u"
  by (auto simp: dedup_step_def AList.update_conv' split: option.splits)

lemma dedup_char:
  assumes u: "u \<noteq> []"
  shows "case map_of (dedup rs) u of
           None \<Rightarrow> filter (\<lambda>r. r_url r = Some u) rs = []
         | Some w \<Rightarrow>
             \<exists>pre post. filter (\<lambda>r. r_url r = Some u) rs = pre @ w # post
               \<and> list_all (\<lambda>c. hits_or_0 c < hits_or_0 w) pre
               \<and> list_all (\<lambda>c. hits_or_0 c \<le> hits_or_0 w) post"
proof (induction rs rule: rev_induct)
  case Nil
  show ?case by (simp add: dedup_def)
next
  case (snoc r rs)
  show ?case
  proof (cases "r_url r = Some u")
    case False
    then have me: "map_of (dedup (rs @ [r])) u = map_of (dedup rs) u"
      by (simp add: dedup_snoc dedup_step_other)
    have fe: "filter (\<lambda>r. r_url r = Some u) (rs @ [r]) = filter (\<lambda>r. r_url r = Some u) rs"
      using False by simp
    show ?thesis unfolding me fe by (rule snoc.IH)
  next
    case True
    show ?thesis
    proof (cases "map_of (dedup rs) u")
      case None
      then have e: "filter (\<lambda>r. r_url r = Some u) rs = []" using snoc by simp
      have m: "map_of (dedup (rs @ [r])) u = Some r"
        using True None u by (simp add: dedup_snoc dedup_step_def AList.update_conv')
      have "filter (\<lambda>r. r_url r = Some u) (rs @ [r]) = [r]"
        using True e by simp
      then have "\<exists>pre post. filter (\<lambda>r. r_url r = Some u) (rs @ [r]) = pre @ r # post
               \<and> list_all (\<lambda>c. hits_or_0 c < hits_or_0 r) pre
               \<and> list_all (\<lambda>c. hits_or_0 c \<le> hits_or_0 r) post"
        by (intro exI [of _ "[]"]) simp
      then show ?thesis unfolding m by simp
    next
      case (Some w)
      then obtain pre post where f: "filter (\<lambda>r. r_url r = Some u) rs = pre @ w # post"
        and pre: "list_all (\<lambda>c. hits_or_0 c < hits_or_0 w) pre"
        and post: "list_all (\<lambda>c. hits_or_0 c \<le> hits_or_0 w) post"
        using snoc by auto
      show ?thesis
      proof (cases "hits_or_0 r > hits_or_0 w")
        case True
        have m: "map_of (dedup (rs @ [r])) u = Some r"
          using \<open>r_url r = Some u\<close> Some u True
          by (simp add: dedup_snoc dedup_step_def AList.update_conv')
        have f': "filter (\<lambda>r. r_url r = Some u) (rs @ [r]) = (pre @ w # post) @ r # []"
          using \<open>r_url r = Some u\<close> f by simp
        have "list_all (\<lambda>c. hits_or_0 c < hits_or_0 r) (pre @ w # post)"
          using pre post True by (auto simp: list_all_iff)
        then have "\<exists>pre post. filter (\<lambda>r. r_url r = Some u) (rs @ [r]) = pre @ r # post
               \<and> list_all (\<lambda>c. hits_or_0 c < hits_or_0 r) pre
               \<and> list_all (\<lambda>c. hits_or_0 c \<le> hits_or_0 r) post"
          unfolding f' by (intro exI [of _ "pre @ w # post"] exI [of _ "[]"]) simp
        then show ?thesis unfolding m by simp
      next
        case False
        have m: "map_of (dedup (rs @ [r])) u = Some w"
          using \<open>r_url r = Some u\<close> Some u False
          by (simp add: dedup_snoc dedup_step_def)
        have f': "filter (\<lambda>r. r_url r = Some u) (rs @ [r]) = pre @ w # (post @ [r])"
          using \<open>r_url r = Some u\<close> f by simp
        have "list_all (\<lambda>c. hits_or_0 c \<le> hits_or_0 w) (post @ [r])"
          using post False by simp
        then have "\<exists>pre post. filter (\<lambda>r. r_url r = Some u) (rs @ [r]) = pre @ w # post
               \<and> list_all (\<lambda>c. hits_or_0 c < hits_or_0 w) pre
               \<and> list_all (\<lambda>c. hits_or_0 c \<le> hits_or_0 w) post"
          unfolding f' using pre by (intro exI [of _ pre] exI [of _ "post @ [r]"]) simp
        then show ?thesis unfolding m by simp
      qed
    qed
  qed
qed

lemma dedup_winner:
  assumes "map_of (dedup rs) u = Some w"
  shows "u \<noteq> []"
    and "\<exists>pre post. filter (\<lambda>r. r_url r = Some u) rs = pre @ w # post
           \<and> list_all (\<lambda>c. hits_or_0 c < hits_or_0 w) pre
           \<and> list_all (\<lambda>c. hits_or_0 c \<le> hits_or_0 w) post"
proof -
  have "[] \<notin> fst ` set (dedup rs)"
    unfolding dedup_def
    by (rule fold_invariant) (auto simp: dedup_step_def AList.dom_update split: option.splits)
  then have "map_of (dedup rs) [] = None" by (simp add: map_of_eq_None_iff)
  with assms show u: "u \<noteq> []" by auto
  from dedup_char [OF u, of rs] assms
  show "\<exists>pre post. filter (\<lambda>r. r_url r = Some u) rs = pre @ w # post
           \<and> list_all (\<lambda>c. hits_or_0 c < hits_or_0 w) pre
           \<and> list_all (\<lambda>c. hits_or_0 c \<le> hits_or_0 w) post"
    by simp
qed

lemma dedup_present:
  assumes "u \<noteq> []" "r \<in> set rs" "r_url r = Some u"
  shows "\<exists>w. map_of (dedup rs) u = Some w"
proof (cases "map_of (dedup rs) u")
  case None
  then have "filter (\<lambda>r. r_url r = Some u) rs = []" using dedup_char [OF assms(1), of rs] by simp
  then show ?thesis using assms(2,3) by (auto simp: filter_empty_conv)
next
  case (Some w)
  then show ?thesis by simp
qed

lemma dedup_stored:
  assumes "kv \<in> set (dedup rs)"
  shows "r_url (snd kv) = Some (fst kv)" and "fst kv \<noteq> []" and "snd kv \<in> set rs"
proof -
  have m: "map_of (dedup rs) (fst kv) = Some (snd kv)"
    using assms distinct_dedup [of rs] by simp
  from dedup_winner [OF m] obtain pre post where
    f: "filter (\<lambda>r. r_url r = Some (fst kv)) rs = pre @ snd kv # post" and "fst kv \<noteq> []"
    by blast
  then show "fst kv \<noteq> []" by simp
  have "snd kv \<in> set (filter (\<lambda>r. r_url r = Some (fst kv)) rs)" unfolding f by simp
  then show "r_url (snd kv) = Some (fst kv)" and "snd kv \<in> set rs" by simp_all
qed

lemma dedup_keys:
  "set (map fst (dedup rs)) = set (filter (\<lambda>u. u \<noteq> []) (List.map_filter r_url rs))"
proof (intro set_eqI iffI)
  fix u assume "u \<in> set (map fst (dedup rs))"
  then obtain kv where kv: "kv \<in> set (dedup rs)" "u = fst kv" by auto
  from dedup_stored [OF kv(1)] kv(2)
  show "u \<in> set (filter (\<lambda>u. u \<noteq> []) (List.map_filter r_url rs))"
    by (force simp: map_filter_def)
next
  fix u assume "u \<in> set (filter (\<lambda>u. u \<noteq> []) (List.map_filter r_url rs))"
  then obtain r where "u \<noteq> []" "r \<in> set rs" "r_url r = Some u"
    by (auto simp: map_filter_def)
  then obtain w where "map_of (dedup rs) u = Some w" using dedup_present by blast
  then show "u \<in> set (map fst (dedup rs))" by (auto dest: map_of_SomeD intro: rev_image_eqI)
qed

lemma length_dedup:
  "length (dedup rs) = length (remdups (filter (\<lambda>u. u \<noteq> []) (List.map_filter r_url rs)))"
proof -
  have "length (dedup rs) = card (set (map fst (dedup rs)))"
    using distinct_card [OF distinct_dedup [of rs]] by simp
  then show ?thesis by (simp only: dedup_keys length_remdups_card_conv)
qed

lemma dedup_filter: "dedup (filter has_url rs) = dedup rs"
proof -
  have "fold dedup_step (filter has_url rs) m = fold dedup_step rs m" for m
  proof (induction rs arbitrary: m)
    case Nil
    show ?case by simp
  next
    case (Cons r rs)
    have "\<not> has_url r \<Longrightarrow> dedup_step r m = m"
      by (auto simp: has_url_def dedup_step_def split: option.splits)
    then show ?case using Cons.IH by (cases "has_url r") simp_all
  qed
  then show ?thesis by (simp add: dedup_def)
qed

lemma distinct_map_sort_key: "distinct (map f xs) \<Longrightarrow> distinct (map f (sort_key k xs))"
  by (simp add: distinct_map)

lemma distinct_map_sort_reverse: "distinct (map f xs) \<Longrightarrow> distinct (map f (sort_reverse k xs))"
  by (simp add: distinct_map sort_reverse_def)


lemma urls_of_dedup: "map r_url (map snd (dedup rs)) = map Some (map fst (dedup rs))"
  using dedup_stored(1) [of _ rs] by simp

lemma distinct_urls_merged: "distinct (map r_url (merged_rows rs))"
proof -
  have "distinct (map r_url (map snd (dedup rs)))"
    unfolding urls_of_dedup by (subst distinct_map) (intro conjI distinct_dedup inj_Some)
  then show ?thesis unfolding merged_rows_def by (rule distinct_map_sort_key)
qed

lemma urls_of_keyed: "keyed m \<Longrightarrow> map url (map snd m) = map fst m"
  by (simp add: keyed_def)

lemma merge_payload_rows:
  assumes "merge_payload stamp raw = Inr p"
  obtains all_rows where "load_all (sort_key fst raw) [] = Inr all_rows"
    and "p_rows p = merged_rows all_rows" and "p_row_count (p_meta p) = length (p_rows p)"
  using assms by (auto simp: merge_payload_def Let_def split: if_splits sum.splits)

section \<open>Lemmas on persistence\<close>

lemma tmp_path_differs: "tmp_path \<noteq> CACHE_PATH"
  by (simp add: tmp_path_def CACHE_PATH_def)

lemma save_live_failure:
  "save_live w ok content fs = (Some x, fs') \<Longrightarrow> fs' CACHE_PATH = fs CACHE_PATH"
  using tmp_path_differs
  by (auto simp: save_live_def write_file_def os_replace_def split: write_outcome.splits if_splits)

lemma save_live_success:
  "save_live w ok content fs = (None, fs') \<Longrightarrow> fs' CACHE_PATH = Some content"
  using tmp_path_differs
  by (auto simp: save_live_def write_file_def os_replace_def split: write_outcome.splits if_splits)

text \<open>
  The live path: a run of \<^verbatim>\<open>scrape_all\<close> that raises, in a fetch, in the freshness
  test, in the write of the temporary file or in the rename, leaves the canonical file as
  it was.
\<close>

lemma rebuild_failure:
  "rebuild e fs = (Inl x, fs') \<Longrightarrow> fs' CACHE_PATH = fs CACHE_PATH"
  using save_live_failure [of "env_write e" "env_replace_ok e" _ fs _ fs']
  by (auto simp: rebuild_def split: sum.splits prod.splits option.splits)

lemma live_failure_keeps_snapshot:
  assumes "scrape_all e force fs = (Inl x, fs')"
  shows "fs' CACHE_PATH = fs CACHE_PATH"
  using assms rebuild_failure [of e fs x fs']
  by (auto simp: scrape_all_def split: if_splits sum.splits bool.splits option.splits)

section \<open>Lemmas on serialisation and on the freshness check\<close>

text \<open>
  The layout of a snapshot without rows, as \<^verbatim>\<open>json.dump\<close> with \<^verbatim>\<open>indent=2\<close> writes
  it: character by character the text
  \<^verbatim>\<open>{"meta": {"scraped_at": "T", "types": ["tab"], "row_count": 0}, "rows": []}\<close>
  with each item on a line of its own.
\<close>

lemma dump_snapshot_layout:
  "dump_snapshot fr \<lparr>meta = \<lparr>scraped_at = ''T'', types = [''tab''], row_count = 0\<rparr>, rows = []\<rparr>
     = [
      CHR 0x7B, CHR 0x0A, CHR 0x20, CHR 0x20, CHR 0x22, CHR 0x6D, CHR 0x65, CHR 0x74,
      CHR 0x61, CHR 0x22, CHR 0x3A, CHR 0x20, CHR 0x7B, CHR 0x0A, CHR 0x20, CHR 0x20,
      CHR 0x20, CHR 0x20, CHR 0x22, CHR 0x73, CHR 0x63, CHR 0x72, CHR 0x61, CHR 0x70,
      CHR 0x65, CHR 0x64, CHR 0x5F, CHR 0x61, CHR 0x74, CHR 0x22, CHR 0x3A, CHR 0x20,
      CHR 0x22, CHR 0x54, CHR 0x22, CHR 0x2C, CHR 0x0A, CHR 0x20, CHR 0x20, CHR 0x20,
      CHR 0x20, CHR 0x22, CHR 0x74, CHR 0x79, CHR 0x70, CHR 0x65, CHR 0x73, CHR 0x22,
      CHR 0x3A, CHR 0x20, CHR 0x5B, CHR 0x0A, CHR 0x20, CHR 0x20, CHR 0x20, CHR 0x20,
      CHR 0x20, CHR 0x20, CHR 0x22, CHR 0x74, CHR 0x61, CHR 0x62, CHR 0x22, CHR 0x0A,
      CHR 0x20, CHR 0x20, CHR 0x20, CHR 0x20, CHR 0x5D, CHR 0x2C, CHR 0x0A, CHR 0x20,
      CHR 0x20, CHR 0x20, CHR 0x20, CHR 0x22, CHR 0x72, CHR 0x6F, CHR 0x77, CHR 0x5F,
      CHR 0x63, CHR 0x6F, CHR 0x75, CHR 0x6E, CHR 0x74, CHR 0x22, CHR 0x3A, CHR 0x20,
      CHR 0x30, CHR 0x0A, CHR 0x20, CHR 0x20, CHR 0x7D, CHR 0x2C, CHR 0x0A, CHR 0x20,
      CHR 0x20, CHR 0x22, CHR 0x72, CHR 0x6F, CHR 0x77, CHR 0x73, CHR 0x22, CHR 0x3A,
      CHR 0x20, CHR 0x5B, CHR 0x5D, CHR 0x0A, CHR 0x7D]"
  by code_simp

text \<open>A name that consists of a no-break space is empty after \<^verbatim>\<open>strip\<close>.\<close>

lemma no_break_space_is_stripped:
  "strip [160, 8195, 88, 32, 89, 12288, 133] = [88, 32, 89]
   \<and> \<not> is_named (blank_tab 6)
   \<and> scrape_types [(''tab'', Inr \<lparr>tabs_hits = [blank_tab 6], hits_list = [(Some 6, Some 2)],
                                   tabs_rating = [named_tab 6]\<rparr>)] []
       = Inr [(tab_url 6, sample_row ''tab'' 6 0 None)]"
  by code_simp

lemma dump_snapshot_split:
  "dump_snapshot fr out
     = snapshot_prefix @ json_string (utext (scraped_at (meta out))) @ snapshot_suffix fr out"
  by (simp add: dump_snapshot_def out_json_def block_def snapshot_prefix_def snapshot_suffix_def
      eval_nat_numeral)

lemma snapshot_suffix_stamp:
  "snapshot_suffix fr (out\<lparr>meta := (meta out)\<lparr>scraped_at := s\<rparr>\<rparr>) = snapshot_suffix fr out"
  by (simp add: snapshot_suffix_def)

lemma scrape_out_stamp:
  "scrape_out s1 f = Inr o1 \<Longrightarrow> scrape_out s2 f = Inr o2 \<Longrightarrow>
   o2 = o1\<lparr>meta := (meta o1)\<lparr>scraped_at := s2\<rparr>\<rparr> \<and> scraped_at (meta o1) = s1"
  by (auto simp: scrape_out_def Let_def split: sum.splits)

lemma rebuilt_run:
  assumes "scrape_all e force fs = (Inr (Rebuilt out), fs')"
  shows "scrape_out (env_now_iso e) (env_fetch e) = Inr out"
    and "fs' CACHE_PATH = Some (dump_snapshot (env_float_repr e) out)"
proof -
  have r: "rebuild e fs = (Inr (Rebuilt out), fs')"
    using assms by (auto simp: scrape_all_def split: if_splits sum.splits bool.splits option.splits)
  then show "scrape_out (env_now_iso e) (env_fetch e) = Inr out"
    by (auto simp: rebuild_def split: sum.splits prod.splits option.splits)
  from r have "save_live (env_write e) (env_replace_ok e)
      (dump_snapshot (env_float_repr e) out) fs = (None, fs')"
    by (auto simp: rebuild_def split: sum.splits prod.splits option.splits)
  then show "fs' CACHE_PATH = Some (dump_snapshot (env_float_repr e) out)"
    by (rule save_live_success)
qed

text \<open>Where the freshness check returns, and what.\<close>

lemma fresh_no_file:
  "fs CACHE_PATH = None \<Longrightarrow> cache_is_fresh ld fi td nw fs H = Inr False"
  by (simp add: cache_is_fresh_def load_existing_def)

lemma fresh_unparseable_file:
  "fs CACHE_PATH = Some c \<Longrightarrow> ld c = None \<Longrightarrow> cache_is_fresh ld fi td nw fs H = Inr False"
  by (simp add: cache_is_fresh_def load_existing_def)

lemma fresh_object_without_meta:
  "load_existing ld fs = Some (JObj kvs) \<Longrightarrow> map_of kvs (utext ''meta'') = None \<Longrightarrow>
   cache_is_fresh ld fi td nw fs H = Inr False"
  by (auto simp: cache_is_fresh_def)

lemma fresh_meta_without_timestamp:
  "load_existing ld fs = Some (JObj kvs) \<Longrightarrow> map_of kvs (utext ''meta'') = Some (JObj mkvs) \<Longrightarrow>
   map_of mkvs (utext ''scraped_at'') = None \<Longrightarrow>
   cache_is_fresh ld fi td nw fs H = Inr False"
  by (auto simp: cache_is_fresh_def)

lemma fresh_unparseable_timestamp:
  "load_existing ld fs = Some (JObj kvs) \<Longrightarrow> map_of kvs (utext ''meta'') = Some (JObj mkvs) \<Longrightarrow>
   map_of mkvs (utext ''scraped_at'') = Some (JStr s) \<Longrightarrow> fi (replace_Z s) = None \<Longrightarrow>
   cache_is_fresh ld fi td nw fs H = Inr False"
  by (auto simp: cache_is_fresh_def)

lemma fresh_aware_timestamp:
  "load_existing ld fs = Some (JObj kvs) \<Longrightarrow> map_of kvs (utext ''meta'') = Some (JObj mkvs) \<Longrightarrow>
   map_of mkvs (utext ''scraped_at'') = Some (JStr s) \<Longrightarrow> s \<noteq> [] \<Longrightarrow>
   fi (replace_Z s) = Some (Aware T) \<Longrightarrow>
   cache_is_fresh ld fi td nw fs H = Inr (nw - T \<le> td H)"
  by (auto simp: cache_is_fresh_def)

section \<open>Properties of the live merge\<close>

text \<open>
  Claim C1, as stated: the final record of each identifier has the maximum of the hit
  counts that the observations of that identifier supplied, 0 when none supplied one.
  It fails in two ways. An observation of the hits-ordered list whose artist or song is
  missing or blank is skipped before its hit count is read (source line 218), so its count
  never reaches the record: tab 42 has 100 hits and ends with 0. And a hit count of 0 is taken as no value
  (source lines 227 and 322), so that it never replaces a negative count: tab 7 has -5
  and 0 hits and ends with -5.
\<close>

theorem max_of_supplied_hits_counterexample:
  "scrape_types nameless_in_hits [] = Inr [(tab_url 42, sample_row ''tab'' 42 0 None)]
   \<and> max_or_0 (concat (map (supplied_hits (tab_url 42)) (listings_of nameless_in_hits))) = 100
   \<and> scrape_types negative_hits [] = Inr [(tab_url 7, sample_row ''chords'' 7 (- 5) None)]
   \<and> max_or_0 (concat (map (supplied_hits (tab_url 7)) (listings_of negative_hits))) = 0"
  by code_simp

text \<open>
  Claim C1, amended: when no hit count of the pages is negative, the final record of each
  identifier has the maximum of the hit counts supplied by those observations of that
  identifier in the hits-ordered lists whose artist and song are both non-blank (not empty
  after \<^verbatim>\<open>strip\<close>), 0 when there is none; and no step of the merge decreases the hits
  of a record (whatever the hit counts are).
\<close>

theorem hits_is_max_of_named_observations:
  "(scrape_types ins [] = Inr all_rows \<and> map_of all_rows u = Some r
      \<and> list_all nonneg_hits (listings_of ins)
    \<longrightarrow> hits r = max_or_0 (concat (map (named_hits u) (listings_of ins))))
   \<and> (map_of m k = Some r0 \<longrightarrow>
        (\<exists>r'. map_of (hits_step ty hb t m) k = Some r' \<and> hits r0 \<le> hits r')
      \<and> (\<exists>r'. map_of (rating_step ty t m) k = Some r' \<and> hits r0 \<le> hits r')
      \<and> (\<exists>r'. map_of (merge_row kv m) k = Some r' \<and> hits r0 \<le> hits r'))"
proof (intro conjI impI)
  assume h: "scrape_types ins [] = Inr all_rows \<and> map_of all_rows u = Some r
      \<and> list_all nonneg_hits (listings_of ins)"
  from h have h1: "scrape_types ins [] = Inr all_rows" by simp
  from h have h2: "map_of all_rows u = Some r" by simp
  from h have h3: "list_all nonneg_hits (listings_of ins)" by simp
  from h1 h2 h3 show "hits r = max_or_0 (concat (map (named_hits u) (listings_of ins)))"
    by (rule final_hits)
next
  assume h: "map_of m k = Some r0"
  show "\<exists>r'. map_of (hits_step ty hb t m) k = Some r' \<and> hits r0 \<le> hits r'"
    using survives_hits_step [of m ty hb t] h by (auto simp: survives_def keeps_def)
  show "\<exists>r'. map_of (rating_step ty t m) k = Some r' \<and> hits r0 \<le> hits r'"
    using survives_rating_step [of m ty t] h by (auto simp: survives_def keeps_def)
  show "\<exists>r'. map_of (merge_row kv m) k = Some r' \<and> hits r0 \<le> hits r'"
    using survives_merge_row [of m kv] h by (auto simp: survives_def keeps_def)
qed

theorem hits_is_max_of_named_observations_witness:
  "scrape_types two_types [] = Inr [(tab_url 42, sample_row ''chords'' 42 50 (Some (9 / 2)))]
   \<and> map_of [(tab_url 42, sample_row ''chords'' 42 50 (Some (9 / 2)))] (tab_url 42)
       = Some (sample_row ''chords'' 42 50 (Some (9 / 2)))
   \<and> list_all nonneg_hits (listings_of two_types)
   \<and> hits (sample_row ''chords'' 42 50 (Some (9 / 2)))
       = max_or_0 (concat (map (named_hits (tab_url 42)) (listings_of two_types)))
   \<and> map_of [(tab_url 42, sample_row ''chords'' 42 10 None)] (tab_url 42)
       = Some (sample_row ''chords'' 42 10 None)
   \<and> (\<exists>r'. map_of (hits_step ''tab'' (Map.empty(42 \<mapsto> 50)) (named_tab 42)
               [(tab_url 42, sample_row ''chords'' 42 10 None)]) (tab_url 42) = Some r'
          \<and> hits (sample_row ''chords'' 42 10 None) \<le> hits r')
   \<and> (\<exists>r'. map_of (rating_step ''tab'' (named_tab 42)
               [(tab_url 42, sample_row ''chords'' 42 10 None)]) (tab_url 42) = Some r'
          \<and> hits (sample_row ''chords'' 42 10 None) \<le> hits r')
   \<and> (\<exists>r'. map_of (merge_row (tab_url 42, sample_row ''tab'' 42 50 None)
               [(tab_url 42, sample_row ''chords'' 42 10 None)]) (tab_url 42) = Some r'
          \<and> hits (sample_row ''chords'' 42 10 None) \<le> hits r')"
proof -
  have h1: "scrape_types two_types []
      = Inr [(tab_url 42, sample_row ''chords'' 42 50 (Some (9 / 2)))]"
    by code_simp
  have h2: "map_of [(tab_url 42, sample_row ''chords'' 42 50 (Some (9 / 2)))] (tab_url 42)
      = Some (sample_row ''chords'' 42 50 (Some (9 / 2)))"
    by simp
  have h3: "list_all nonneg_hits (listings_of two_types)"
    by code_simp
  have h4: "map_of [(tab_url 42, sample_row ''chords'' 42 10 None)] (tab_url 42)
      = Some (sample_row ''chords'' 42 10 None)"
    by simp
  note T = hits_is_max_of_named_observations
    [where ins = two_types and u = "tab_url 42"
       and all_rows = "[(tab_url 42, sample_row ''chords'' 42 50 (Some (9 / 2)))]"
       and r = "sample_row ''chords'' 42 50 (Some (9 / 2))"
       and m = "[(tab_url 42, sample_row ''chords'' 42 10 None)]" and k = "tab_url 42"
       and ?r0.0 = "sample_row ''chords'' 42 10 None" and ty = "''tab''"
       and hb = "Map.empty(42 \<mapsto> 50)" and t = "named_tab 42"
       and kv = "(tab_url 42, sample_row ''tab'' 42 50 None)"]
  from T h1 h2 h3 h4 show ?thesis by blast
qed

text \<open>
  Claim C2: an observation whose identifier is not in the mapping and that lacks a
  non-empty artist or song (after stripping) leaves the mapping as it is, in the loop
  over the hits-ordered list and in the loop over the rating-ordered list; so a new
  record is created only from an observation with both names, and every record of the
  final mapping has both.
\<close>

theorem nameless_observation_creates_no_record:
  "(tab_id t = Some i \<and> map_of m (tab_url i) = None \<and> \<not> is_named t
    \<longrightarrow> hits_step ty hb t m = m \<and> rating_step ty t m = m)
   \<and> (scrape_types ins [] = Inr all_rows \<and> map_of all_rows u = Some r
    \<longrightarrow> artist r \<noteq> [] \<and> song r \<noteq> [])"
proof (intro conjI impI)
  assume h: "tab_id t = Some i \<and> map_of m (tab_url i) = None \<and> \<not> is_named t"
  then show "hits_step ty hb t m = m"
    by (auto simp: hits_step_def is_named_def Let_def)
  from h show "rating_step ty t m = m"
    by (auto simp: rating_step_def is_named_def Let_def)
next
  assume h: "scrape_types ins [] = Inr all_rows \<and> map_of all_rows u = Some r"
  from h have h1: "scrape_types ins [] = Inr all_rows" and h2: "map_of all_rows u = Some r"
    by simp_all
  have "all_named []" by (simp add: all_named_def)
  then have "all_named all_rows" using h1 by (rule named_scrape_types)
  then have "artist r \<noteq> [] \<and> song r \<noteq> []" using h2 by (rule named_lookup)
  then show "artist r \<noteq> []" and "song r \<noteq> []" by simp_all
qed

theorem nameless_observation_creates_no_record_witness:
  "tab_id (bare_tab 42 (Some (9 / 2))) = Some 42 \<and> map_of ([] :: rows_dict) (tab_url 42) = None
   \<and> \<not> is_named (bare_tab 42 (Some (9 / 2)))
   \<and> hits_step ''tab'' (Map.empty(42 \<mapsto> 100)) (bare_tab 42 (Some (9 / 2))) [] = []
   \<and> rating_step ''tab'' (bare_tab 42 (Some (9 / 2))) [] = []
   \<and> scrape_types two_types [] = Inr [(tab_url 42, sample_row ''chords'' 42 50 (Some (9 / 2)))]
   \<and> map_of [(tab_url 42, sample_row ''chords'' 42 50 (Some (9 / 2)))] (tab_url 42)
       = Some (sample_row ''chords'' 42 50 (Some (9 / 2)))
   \<and> artist (sample_row ''chords'' 42 50 (Some (9 / 2))) \<noteq> []
   \<and> song (sample_row ''chords'' 42 50 (Some (9 / 2))) \<noteq> []"
proof -
  have h1: "tab_id (bare_tab 42 (Some (9 / 2))) = Some 42" by (simp add: bare_tab_def)
  have h2: "map_of ([] :: rows_dict) (tab_url 42) = None" by simp
  have h3: "\<not> is_named (bare_tab 42 (Some (9 / 2)))" by code_simp
  have h4: "scrape_types two_types []
      = Inr [(tab_url 42, sample_row ''chords'' 42 50 (Some (9 / 2)))]"
    by code_simp
  have h5: "map_of [(tab_url 42, sample_row ''chords'' 42 50 (Some (9 / 2)))] (tab_url 42)
      = Some (sample_row ''chords'' 42 50 (Some (9 / 2)))"
    by simp
  note T = nameless_observation_creates_no_record
    [where t = "bare_tab 42 (Some (9 / 2))" and i = 42 and m = "[]" and ty = "''tab''"
       and hb = "Map.empty(42 \<mapsto> 100)" and ins = two_types
       and all_rows = "[(tab_url 42, sample_row ''chords'' 42 50 (Some (9 / 2)))]"
       and u = "tab_url 42" and r = "sample_row ''chords'' 42 50 (Some (9 / 2))"]
  from T h1 h2 h3 h4 h5 show ?thesis by blast
qed

text \<open>
  Claim C3: a record that is in the mapping stays in it under its key, and a later
  observation of its identifier changes at most its hits (loop over the hits-ordered
  list), its rating and votes (loop over the rating-ordered list), or these three (merge
  across types): artist, song, type and URL are as they were at creation, through the rest
  of the run.
\<close>

theorem identity_fields_frozen:
  "(map_of m u = Some r \<longrightarrow>
      (\<exists>r'. map_of (hits_step ty hb t m) u = Some r' \<and> r' = r\<lparr>hits := hits r'\<rparr>)
    \<and> (\<exists>r'. map_of (rating_step ty t m) u = Some r'
           \<and> r' = r\<lparr>rating := rating r', votes := votes r'\<rparr>)
    \<and> (\<exists>r'. map_of (merge_row kv m) u = Some r'
           \<and> r' = r\<lparr>hits := hits r', rating := rating r', votes := votes r'\<rparr>))
   \<and> (map_of m u = Some r \<and> scrape_types ins m = Inr m' \<longrightarrow>
      (\<exists>r'. map_of m' u = Some r'
           \<and> artist r' = artist r \<and> song r' = song r \<and> rtype r' = rtype r \<and> url r' = url r))"
proof (intro impI conjI)
  assume h: "map_of m u = Some r"
  show "\<exists>r'. map_of (hits_step ty hb t m) u = Some r' \<and> r' = r\<lparr>hits := hits r'\<rparr>"
    using h by (auto simp: hits_step_def Let_def AList.update_conv' split: option.splits)
  show "\<exists>r'. map_of (rating_step ty t m) u = Some r'
      \<and> r' = r\<lparr>rating := rating r', votes := votes r'\<rparr>"
    using h
    by (auto simp: rating_step_def set_quality_def Let_def AList.update_conv' split: option.splits)
  show "\<exists>r'. map_of (merge_row kv m) u = Some r'
      \<and> r' = r\<lparr>hits := hits r', rating := rating r', votes := votes r'\<rparr>"
    using h
    by (auto simp: merge_row_def set_quality_def Let_def AList.update_conv'
        split: option.splits prod.splits)
next
  assume h: "map_of m u = Some r \<and> scrape_types ins m = Inr m'"
  then have "scrape_types ins m = Inr m'" by simp
  then have "survives m m'" by (rule survives_scrape_types)
  with h show "\<exists>r'. map_of m' u = Some r'
      \<and> artist r' = artist r \<and> song r' = song r \<and> rtype r' = rtype r \<and> url r' = url r"
    by (auto simp: survives_def keeps_def)
qed

theorem identity_fields_frozen_witness:
  "map_of [(tab_url 42, sample_row ''chords'' 42 10 None)] (tab_url 42)
     = Some (sample_row ''chords'' 42 10 None)
   \<and> scrape_types [(''tab'', Inr \<lparr>tabs_hits = [renamed_tab], hits_list = [(Some 42, Some 50)],
                                   tabs_rating = [renamed_tab]\<rparr>)]
       [(tab_url 42, sample_row ''chords'' 42 10 None)]
     = Inr [(tab_url 42, \<lparr>artist = utext ''X'', song = utext ''Y'', rtype = ''chords'', url = tab_url 42,
                           hits = 50, rating = Some 4, votes = Some 3\<rparr>)]
   \<and> (\<exists>r'. map_of (hits_step ''tab'' (Map.empty(42 \<mapsto> 50)) renamed_tab
               [(tab_url 42, sample_row ''chords'' 42 10 None)]) (tab_url 42) = Some r'
          \<and> r' = (sample_row ''chords'' 42 10 None)\<lparr>hits := hits r'\<rparr>)
   \<and> (\<exists>r'. map_of (rating_step ''tab'' renamed_tab
               [(tab_url 42, sample_row ''chords'' 42 10 None)]) (tab_url 42) = Some r'
          \<and> r' = (sample_row ''chords'' 42 10 None)\<lparr>rating := rating r', votes := votes r'\<rparr>)
   \<and> (\<exists>r'. map_of (merge_row (tab_url 42, renamed_row)
               [(tab_url 42, sample_row ''chords'' 42 10 None)]) (tab_url 42) = Some r'
          \<and> r' = (sample_row ''chords'' 42 10 None)
                   \<lparr>hits := hits r', rating := rating r', votes := votes r'\<rparr>)
   \<and> (\<exists>r'. map_of [(tab_url 42, \<lparr>artist = utext ''X'', song = utext ''Y'', rtype = ''chords'',
                                    url = tab_url 42, hits = 50, rating = Some 4,
                                    votes = Some 3\<rparr>)] (tab_url 42) = Some r'
          \<and> artist r' = artist (sample_row ''chords'' 42 10 None)
          \<and> song r' = song (sample_row ''chords'' 42 10 None)
          \<and> rtype r' = rtype (sample_row ''chords'' 42 10 None)
          \<and> url r' = url (sample_row ''chords'' 42 10 None))"
proof -
  have h1: "map_of [(tab_url 42, sample_row ''chords'' 42 10 None)] (tab_url 42)
      = Some (sample_row ''chords'' 42 10 None)"
    by simp
  have h2: "scrape_types [(''tab'', Inr \<lparr>tabs_hits = [renamed_tab],
                 hits_list = [(Some 42, Some 50)], tabs_rating = [renamed_tab]\<rparr>)]
       [(tab_url 42, sample_row ''chords'' 42 10 None)]
     = Inr [(tab_url 42, \<lparr>artist = utext ''X'', song = utext ''Y'', rtype = ''chords'', url = tab_url 42,
                           hits = 50, rating = Some 4, votes = Some 3\<rparr>)]"
    by code_simp
  note T = identity_fields_frozen
    [where m = "[(tab_url 42, sample_row ''chords'' 42 10 None)]" and u = "tab_url 42"
       and r = "sample_row ''chords'' 42 10 None" and ty = "''tab''"
       and hb = "Map.empty(42 \<mapsto> 50)" and t = renamed_tab
       and kv = "(tab_url 42, renamed_row)"
       and ins = "[(''tab'', Inr \<lparr>tabs_hits = [renamed_tab], hits_list = [(Some 42, Some 50)],
                                   tabs_rating = [renamed_tab]\<rparr>)]"
       and m' = "[(tab_url 42, \<lparr>artist = utext ''X'', song = utext ''Y'', rtype = ''chords'',
                    url = tab_url 42, hits = 50, rating = Some 4, votes = Some 3\<rparr>)]"]
  from T h1 h2 show ?thesis by blast
qed

section \<open>Uniqueness, dedup, ordering and determinism\<close>

text \<open>
  Claim C4: the mapping of the live merge has each key once, and the rows it persists have
  pairwise distinct URLs; the mapping of the cross-file dedup has each key once, and the
  rows it persists have pairwise distinct URLs.
\<close>

theorem one_record_per_key:
  "(scrape_types ins [] = Inr all_rows \<longrightarrow> distinct (map fst all_rows))
   \<and> (scrape_out stamp f = Inr out \<longrightarrow> distinct (map url (rows out)))
   \<and> distinct (map fst (dedup rs))
   \<and> distinct (map r_url (merged_rows rs))"
proof (intro conjI impI)
  assume "scrape_types ins [] = Inr all_rows"
  with distinct_scrape_types [of "[]" ins all_rows] show "distinct (map fst all_rows)" by simp
next
  assume h: "scrape_out stamp f = Inr out"
  then obtain m where m: "scrape_types (map (\<lambda>t. (t, f t)) TYPE_KEYS) [] = Inr m"
    and out: "rows out = sort_reverse live_key (map snd m)"
    by (auto simp: scrape_out_def Let_def split: sum.splits)
  have "keyed []" by (simp add: keyed_def)
  then have "keyed m" using m by (rule keyed_scrape_types)
  moreover have "distinct (map fst m)" using distinct_scrape_types [OF _ m] by simp
  ultimately have "distinct (map url (map snd m))" by (simp only: urls_of_keyed)
  then show "distinct (map url (rows out))" unfolding out by (rule distinct_map_sort_reverse)
next
  show "distinct (map fst (dedup rs))" by (rule distinct_dedup)
  show "distinct (map r_url (merged_rows rs))" by (rule distinct_urls_merged)
qed

theorem one_record_per_key_witness:
  "scrape_types two_types [] = Inr [(tab_url 42, sample_row ''chords'' 42 50 (Some (9 / 2)))]
   \<and> distinct (map fst [(tab_url 42, sample_row ''chords'' 42 50 (Some (9 / 2)))])
   \<and> scrape_out ''T'' (fetch_of by_category)
       = Inr \<lparr>meta = \<lparr>scraped_at = ''T'', types = TYPE_KEYS, row_count = 2\<rparr>,
              rows = [sample_row ''tab'' 2 10 None, sample_row ''chords'' 1 5 None]\<rparr>
   \<and> distinct (map url (rows \<lparr>meta = \<lparr>scraped_at = ''T'', types = TYPE_KEYS, row_count = 2\<rparr>,
              rows = [sample_row ''tab'' 2 10 None, sample_row ''chords'' 1 5 None]\<rparr>))"
proof -
  have h1: "scrape_types two_types []
      = Inr [(tab_url 42, sample_row ''chords'' 42 50 (Some (9 / 2)))]"
    by code_simp
  have h2: "scrape_out ''T'' (fetch_of by_category)
       = Inr \<lparr>meta = \<lparr>scraped_at = ''T'', types = TYPE_KEYS, row_count = 2\<rparr>,
              rows = [sample_row ''tab'' 2 10 None, sample_row ''chords'' 1 5 None]\<rparr>"
    by code_simp
  note T = one_record_per_key
    [where ins = two_types
       and all_rows = "[(tab_url 42, sample_row ''chords'' 42 50 (Some (9 / 2)))]"
       and stamp = "''T''" and f = "fetch_of by_category"
       and out = "\<lparr>meta = \<lparr>scraped_at = ''T'', types = TYPE_KEYS, row_count = 2\<rparr>,
              rows = [sample_row ''tab'' 2 10 None, sample_row ''chords'' 1 5 None]\<rparr>"]
  from T h1 h2 show ?thesis by blast
qed

text \<open>
  Claim C5: the record the cross-file dedup keeps for a URL is one of the input rows of
  that URL, whole: every row of that URL before it has strictly fewer hits (null as 0),
  every row after it has at most its hits, and it is among the persisted rows. Every
  non-empty URL of the input has such a record. Of two rows of one URL with 100 and 50
  hits, the row with 100 is the only one persisted, in either input order.
\<close>

theorem dedup_keeps_first_row_of_most_hits:
  "(map_of (dedup rs) u = Some w \<longrightarrow>
      (\<exists>pre post. filter (\<lambda>r. r_url r = Some u) rs = pre @ w # post
         \<and> list_all (\<lambda>c. hits_or_0 c < hits_or_0 w) pre
         \<and> list_all (\<lambda>c. hits_or_0 c \<le> hits_or_0 w) post)
      \<and> w \<in> set (merged_rows rs))
   \<and> (u \<noteq> [] \<and> r \<in> set rs \<and> r_url r = Some u \<longrightarrow> (\<exists>w. map_of (dedup rs) u = Some w))
   \<and> (u \<noteq> [] \<and> r_url a = Some u \<and> r_url b = Some u \<and> r_hits a = Some 100 \<and> r_hits b = Some 50
      \<longrightarrow> merged_rows [a, b] = [a] \<and> merged_rows [b, a] = [a])"
proof (intro conjI impI)
  assume h: "map_of (dedup rs) u = Some w"
  then show "\<exists>pre post. filter (\<lambda>r. r_url r = Some u) rs = pre @ w # post
         \<and> list_all (\<lambda>c. hits_or_0 c < hits_or_0 w) pre
         \<and> list_all (\<lambda>c. hits_or_0 c \<le> hits_or_0 w) post"
    by (rule dedup_winner)
  from h have "(u, w) \<in> set (dedup rs)" by (rule map_of_SomeD)
  then have "w \<in> snd ` set (dedup rs)" by (rule rev_image_eqI) simp
  then show "w \<in> set (merged_rows rs)" by (simp add: merged_rows_def)
next
  assume "u \<noteq> [] \<and> r \<in> set rs \<and> r_url r = Some u"
  then show "\<exists>w. map_of (dedup rs) u = Some w" using dedup_present [of u r rs] by simp
next
  assume h: "u \<noteq> [] \<and> r_url a = Some u \<and> r_url b = Some u \<and> r_hits a = Some 100
      \<and> r_hits b = Some 50"
  then show "merged_rows [a, b] = [a]"
    by (simp add: merged_rows_def dedup_def dedup_step_def hits_or_0_def)
  from h show "merged_rows [b, a] = [a]"
    by (simp add: merged_rows_def dedup_def dedup_step_def hits_or_0_def)
qed

theorem dedup_keeps_first_row_of_most_hits_witness:
  "map_of (dedup [sample_raw ''B'' (Some ''u'') (Some 50), sample_raw ''A'' (Some ''u'') (Some 100),
                  sample_raw ''C'' (Some ''u'') (Some 100)]) (utext ''u'')
     = Some (sample_raw ''A'' (Some ''u'') (Some 100))
   \<and> (\<exists>pre post.
         filter (\<lambda>r. r_url r = Some (utext ''u''))
           [sample_raw ''B'' (Some ''u'') (Some 50), sample_raw ''A'' (Some ''u'') (Some 100),
            sample_raw ''C'' (Some ''u'') (Some 100)]
           = pre @ sample_raw ''A'' (Some ''u'') (Some 100) # post
         \<and> list_all (\<lambda>c. hits_or_0 c < hits_or_0 (sample_raw ''A'' (Some ''u'') (Some 100))) pre
         \<and> list_all (\<lambda>c. hits_or_0 c \<le> hits_or_0 (sample_raw ''A'' (Some ''u'') (Some 100))) post)
   \<and> sample_raw ''A'' (Some ''u'') (Some 100)
       \<in> set (merged_rows [sample_raw ''B'' (Some ''u'') (Some 50),
                            sample_raw ''A'' (Some ''u'') (Some 100),
                            sample_raw ''C'' (Some ''u'') (Some 100)])
   \<and> merged_rows [sample_raw ''A'' (Some ''u'') (Some 100), sample_raw ''B'' (Some ''u'') (Some 50)]
       = [sample_raw ''A'' (Some ''u'') (Some 100)]
   \<and> merged_rows [sample_raw ''B'' (Some ''u'') (Some 50), sample_raw ''A'' (Some ''u'') (Some 100)]
       = [sample_raw ''A'' (Some ''u'') (Some 100)]"
proof -
  let ?a = "sample_raw ''A'' (Some ''u'') (Some 100)"
  let ?b = "sample_raw ''B'' (Some ''u'') (Some 50)"
  let ?c = "sample_raw ''C'' (Some ''u'') (Some 100)"
  have h1: "map_of (dedup [?b, ?a, ?c]) (utext ''u'') = Some ?a" by code_simp
  have h2: "utext ''u'' \<noteq> [] \<and> ?b \<in> set [?b, ?a, ?c] \<and> r_url ?b = Some (utext ''u'')"
    by (simp add: sample_raw_def utext_def)
  have h3: "utext ''u'' \<noteq> [] \<and> r_url ?a = Some (utext ''u'') \<and> r_url ?b = Some (utext ''u'')
      \<and> r_hits ?a = Some 100 \<and> r_hits ?b = Some 50"
    by (simp add: sample_raw_def utext_def)
  note T = dedup_keeps_first_row_of_most_hits
    [where rs = "[?b, ?a, ?c]" and u = "utext ''u''" and w = ?a and r = ?b and a = ?a and b = ?b]
  from T h1 h2 h3 show ?thesis by blast
qed

text \<open>
  Claim C10: in the cross-file dedup every persisted row has a non-empty URL; the rows
  whose URL is missing, null or empty can be removed from the input without a change of
  the persisted rows; and the row count is the number of distinct non-empty URLs of the
  input, which is the number of persisted rows.
\<close>

theorem rows_without_url_are_dropped:
  "list_all has_url (merged_rows rs)
   \<and> merged_rows rs = merged_rows (filter has_url rs)
   \<and> length (merged_rows rs)
       = length (remdups (filter (\<lambda>u. u \<noteq> []) (List.map_filter r_url rs)))
   \<and> (merge_payload stamp raw = Inr p \<and> load_all (sort_key fst raw) [] = Inr all_rows
      \<longrightarrow> p_rows p = merged_rows (filter has_url all_rows)
        \<and> list_all has_url (p_rows p)
        \<and> p_row_count (p_meta p) = length (merged_rows (filter has_url all_rows)))"
proof -
  have a: "list_all has_url (merged_rows rs)" for rs
    using dedup_stored(1,2) [of _ rs]
    by (auto simp: list_all_iff merged_rows_def has_url_def)
  have b: "merged_rows rs = merged_rows (filter has_url rs)" for rs
    by (simp add: merged_rows_def dedup_filter)
  have c: "length (merged_rows rs)
      = length (remdups (filter (\<lambda>u. u \<noteq> []) (List.map_filter r_url rs)))"
    by (simp add: merged_rows_def length_dedup)
  have d: "p_rows p = merged_rows (filter has_url all_rows)
        \<and> list_all has_url (p_rows p)
        \<and> p_row_count (p_meta p) = length (merged_rows (filter has_url all_rows))"
    if "merge_payload stamp raw = Inr p \<and> load_all (sort_key fst raw) [] = Inr all_rows"
  proof -
    from that have p: "merge_payload stamp raw = Inr p"
      and l: "load_all (sort_key fst raw) [] = Inr all_rows" by simp_all
    from p obtain rows' where "load_all (sort_key fst raw) [] = Inr rows'"
      and "p_rows p = merged_rows rows'" and n: "p_row_count (p_meta p) = length (p_rows p)"
      by (rule merge_payload_rows)
    with l have r: "p_rows p = merged_rows all_rows" by simp
    show ?thesis using a [of all_rows] b [of all_rows] n by (simp add: r)
  qed
  from a b c d show ?thesis by blast
qed

theorem rows_without_url_are_dropped_witness:
  "merge_payload ''T'' raw_files
     = Inr \<lparr>p_meta = \<lparr>p_scraped_at = ''T'', source_files = [''a.json'', ''b.json''],
                       p_row_count = 1\<rparr>,
            p_rows = [sample_raw ''A'' (Some ''u'') (Some 100)]\<rparr>
   \<and> load_all (sort_key fst raw_files) []
     = Inr [sample_raw ''N'' None (Some 7), sample_raw ''E'' (Some []) (Some 9),
            sample_raw ''B'' (Some ''u'') (Some 50), sample_raw ''A'' (Some ''u'') (Some 100),
            sample_raw ''C'' (Some ''u'') (Some 100)]
   \<and> p_rows \<lparr>p_meta = \<lparr>p_scraped_at = ''T'', source_files = [''a.json'', ''b.json''],
                       p_row_count = 1\<rparr>,
            p_rows = [sample_raw ''A'' (Some ''u'') (Some 100)]\<rparr>
     = merged_rows (filter has_url
         [sample_raw ''N'' None (Some 7), sample_raw ''E'' (Some []) (Some 9),
          sample_raw ''B'' (Some ''u'') (Some 50), sample_raw ''A'' (Some ''u'') (Some 100),
          sample_raw ''C'' (Some ''u'') (Some 100)])
   \<and> list_all has_url
       (p_rows \<lparr>p_meta = \<lparr>p_scraped_at = ''T'', source_files = [''a.json'', ''b.json''],
                       p_row_count = 1\<rparr>,
            p_rows = [sample_raw ''A'' (Some ''u'') (Some 100)]\<rparr>)
   \<and> p_row_count (p_meta \<lparr>p_meta = \<lparr>p_scraped_at = ''T'',
                       source_files = [''a.json'', ''b.json''], p_row_count = 1\<rparr>,
            p_rows = [sample_raw ''A'' (Some ''u'') (Some 100)]\<rparr>)
     = length (merged_rows (filter has_url
         [sample_raw ''N'' None (Some 7), sample_raw ''E'' (Some []) (Some 9),
          sample_raw ''B'' (Some ''u'') (Some 50), sample_raw ''A'' (Some ''u'') (Some 100),
          sample_raw ''C'' (Some ''u'') (Some 100)]))"
proof -
  let ?p = "\<lparr>p_meta = \<lparr>p_scraped_at = ''T'', source_files = [''a.json'', ''b.json''],
                       p_row_count = 1\<rparr>,
            p_rows = [sample_raw ''A'' (Some ''u'') (Some 100)]\<rparr>"
  let ?all = "[sample_raw ''N'' None (Some 7), sample_raw ''E'' (Some []) (Some 9),
            sample_raw ''B'' (Some ''u'') (Some 50), sample_raw ''A'' (Some ''u'') (Some 100),
            sample_raw ''C'' (Some ''u'') (Some 100)]"
  have h1: "merge_payload ''T'' raw_files = Inr ?p" by code_simp
  have h2: "load_all (sort_key fst raw_files) [] = Inr ?all" by code_simp
  note T = rows_without_url_are_dropped
    [where stamp = "''T''" and raw = raw_files and p = ?p and all_rows = ?all and rs = "[]",
     THEN conjunct2, THEN conjunct2, THEN conjunct2]
  have c: "p_rows ?p = merged_rows (filter has_url ?all)
        \<and> list_all has_url (p_rows ?p)
        \<and> p_row_count (p_meta ?p) = length (merged_rows (filter has_url ?all))"
    by (rule T [THEN mp]) (rule conjI [OF h1 h2])
  show ?thesis by (rule conjI [OF h1 conjI [OF h2 c]])
qed





section \<open>Properties of the snapshot store\<close>

text \<open>
  Claim C6: a write that fails leaves the previously persisted snapshot unchanged, in the
  live path and in the cross-file dedup path. The live path writes a temporary file and
  renames it (\<open>live_failure_keeps_snapshot\<close>). The dedup path opens the canonical file
  itself: when the write fails after two bytes, the run ends with the error and the
  canonical file holds those two bytes, where the live path on the same failure keeps the
  old content.
\<close>

theorem merge_write_failure_truncates_snapshot:
  "OUT_PATH = CACHE_PATH
   \<and> fst (merge_main (\<lambda>p. ''{meta: new}'') ''T'' raw_files (WriteFails 2)
            (Map.empty(OUT_PATH \<mapsto> ''{meta: old}'')))
       = Inl (Raised IOError)
   \<and> snd (merge_main (\<lambda>p. ''{meta: new}'') ''T'' raw_files (WriteFails 2)
            (Map.empty(OUT_PATH \<mapsto> ''{meta: old}''))) OUT_PATH
       = Some ''{m''
   \<and> snd (save_live (WriteFails 2) True ''{meta: new}''
            (Map.empty(CACHE_PATH \<mapsto> ''{meta: old}''))) CACHE_PATH
       = Some ''{meta: old}''"
  by code_simp

text \<open>
  Claim C7: the freshness check returns false when the snapshot file, its metadata or
  its timestamp is missing or cannot be parsed. The code returns false when the file is
  missing or is no JSON (\<open>fresh_no_file\<close>, \<open>fresh_unparseable_file\<close>) and when the
  timestamp string does not parse (\<open>fresh_unparseable_timestamp\<close>), each under a
  \<^verbatim>\<open>try\<close>; but \<^verbatim>\<open>data.get\<close> and \<^verbatim>\<open>meta.get\<close> (source lines 98 and 99) and the
  subtraction (line 106) are under none. A snapshot file that holds the JSON array
  \<^verbatim>\<open>[1]\<close>, and one whose \<^verbatim>\<open>meta\<close> is a list, make the check raise
  \<^verbatim>\<open>AttributeError\<close>, and a timestamp without offset makes it raise \<^verbatim>\<open>TypeError\<close>;
  a refresh that is not forced then fails and fetches nothing. A well-formed snapshot is
  fresh one hour after its timestamp and stale after 25 hours.
\<close>

theorem freshness_check_raises_on_malformed_snapshot:
  "cache_is_fresh sample_loads sample_fromisoformat sample_timedelta_hours 90000000000
     (file_with ''[1]'') 24 = Inl AttributeError
   \<and> cache_is_fresh sample_loads sample_fromisoformat sample_timedelta_hours 90000000000
       (file_with ''snapshot, meta is a list'') 24 = Inl AttributeError
   \<and> cache_is_fresh sample_loads sample_fromisoformat sample_timedelta_hours 90000000000
       (file_with ''snapshot, timestamp without offset'') 24 = Inl TypeError
   \<and> fst (scrape_all (sample_env 90000000000 ''2026-01-01T01:00:00Z'') False (file_with ''[1]''))
       = Inl AttributeError
   \<and> cache_is_fresh sample_loads sample_fromisoformat sample_timedelta_hours 90000000000
       (file_with ''no JSON'') 24 = Inr False
   \<and> cache_is_fresh sample_loads sample_fromisoformat sample_timedelta_hours 90000000000
       (file_with ''snapshot'') 24 = Inr True
   \<and> cache_is_fresh sample_loads sample_fromisoformat sample_timedelta_hours 176400000000
       (file_with ''snapshot'') 24 = Inr False"
  by code_simp

text \<open>
  Claim C9, as stated: two runs on the same observations persist byte-identical
  snapshots, metadata included. The metadata hold the time of the run (source line 338):
  two forced runs on the same pages, 25 hours apart, write different files.
\<close>

theorem rerun_identical_counterexample:
  "snd (scrape_all (sample_env 0 ''2026-01-01T00:00:00Z'') True Map.empty) CACHE_PATH
     \<noteq> snd (scrape_all (sample_env 90000000000 ''2026-01-02T01:00:00Z'') True Map.empty)
         CACHE_PATH"
  by code_simp

text \<open>
  Claim C9, amended: when two runs rebuild the snapshot from the same pages, the files they
  write are the same bytes before and after the timestamp string that follows
  \<^verbatim>\<open>"scraped_at"\<close>, and the same files when the clock reads the same; and a run that
  is not forced and finds a fresh snapshot returns it and leaves the file system as it
  is.
\<close>

theorem rerun_changes_timestamp_bytes_only:
  "(scrape_all e1 force1 fs0 = (Inr (Rebuilt o1), fs1)
      \<and> scrape_all e2 force2 fs1 = (Inr (Rebuilt o2), fs2)
      \<and> env_fetch e2 = env_fetch e1 \<and> env_float_repr e2 = env_float_repr e1
    \<longrightarrow> (\<exists>post. fs1 CACHE_PATH
                  = Some (snapshot_prefix @ json_string (utext (env_now_iso e1)) @ post)
              \<and> fs2 CACHE_PATH
                  = Some (snapshot_prefix @ json_string (utext (env_now_iso e2)) @ post))
        \<and> (env_now_iso e2 = env_now_iso e1 \<longrightarrow> fs2 CACHE_PATH = fs1 CACHE_PATH))
   \<and> (\<not> force
      \<and> cache_is_fresh (env_loads e) (env_fromisoformat e) (env_timedelta_hours e) (env_now e)
          fs 24 = Inr True
      \<and> load_existing (env_loads e) fs = Some j \<and> truthy j
    \<longrightarrow> scrape_all e force fs = (Inr (Cached j), fs))"
proof (intro conjI impI)
  assume h: "scrape_all e1 force1 fs0 = (Inr (Rebuilt o1), fs1)
      \<and> scrape_all e2 force2 fs1 = (Inr (Rebuilt o2), fs2)
      \<and> env_fetch e2 = env_fetch e1 \<and> env_float_repr e2 = env_float_repr e1"
  from h have r1: "scrape_all e1 force1 fs0 = (Inr (Rebuilt o1), fs1)"
    and r2: "scrape_all e2 force2 fs1 = (Inr (Rebuilt o2), fs2)"
    and f: "env_fetch e2 = env_fetch e1" and fr: "env_float_repr e2 = env_float_repr e1"
    by simp_all
  note a1 = rebuilt_run [OF r1] and a2 = rebuilt_run [OF r2]
  from scrape_out_stamp [OF a1(1) a2(1) [unfolded f]]
  have o2: "o2 = o1\<lparr>meta := (meta o1)\<lparr>scraped_at := env_now_iso e2\<rparr>\<rparr>"
    and s1: "scraped_at (meta o1) = env_now_iso e1" by simp_all
  have c1: "fs1 CACHE_PATH = Some (snapshot_prefix @ json_string (utext (env_now_iso e1))
      @ snapshot_suffix (env_float_repr e1) o1)"
    using a1(2) by (simp add: dump_snapshot_split s1)
  have c2: "fs2 CACHE_PATH = Some (snapshot_prefix @ json_string (utext (env_now_iso e2))
      @ snapshot_suffix (env_float_repr e1) o1)"
    using a2(2) by (simp add: dump_snapshot_split o2 fr snapshot_suffix_stamp)
  from c1 c2 show "\<exists>post. fs1 CACHE_PATH
                  = Some (snapshot_prefix @ json_string (utext (env_now_iso e1)) @ post)
              \<and> fs2 CACHE_PATH
                  = Some (snapshot_prefix @ json_string (utext (env_now_iso e2)) @ post)"
    by blast
  show "fs2 CACHE_PATH = fs1 CACHE_PATH" if "env_now_iso e2 = env_now_iso e1"
    using c1 c2 that by simp
next
  assume "\<not> force
      \<and> cache_is_fresh (env_loads e) (env_fromisoformat e) (env_timedelta_hours e) (env_now e)
          fs 24 = Inr True
      \<and> load_existing (env_loads e) fs = Some j \<and> truthy j"
  then show "scrape_all e force fs = (Inr (Cached j), fs)"
    by (simp add: scrape_all_def)
qed

theorem rerun_changes_timestamp_bytes_only_witness:
  "scrape_all (sample_env 0 ''2026-01-01T00:00:00Z'') True Map.empty
     = (Inr (Rebuilt \<lparr>meta = \<lparr>scraped_at = ''2026-01-01T00:00:00Z'', types = TYPE_KEYS,
                               row_count = 1\<rparr>,
                      rows = [sample_row ''chords'' 42 50 (Some (9 / 2))]\<rparr>),
        snd (scrape_all (sample_env 0 ''2026-01-01T00:00:00Z'') True Map.empty))
   \<and> scrape_all (sample_env 90000000000 ''2026-01-02T01:00:00Z'') True
       (snd (scrape_all (sample_env 0 ''2026-01-01T00:00:00Z'') True Map.empty))
     = (Inr (Rebuilt \<lparr>meta = \<lparr>scraped_at = ''2026-01-02T01:00:00Z'', types = TYPE_KEYS,
                               row_count = 1\<rparr>,
                      rows = [sample_row ''chords'' 42 50 (Some (9 / 2))]\<rparr>),
        snd (scrape_all (sample_env 90000000000 ''2026-01-02T01:00:00Z'') True
               (snd (scrape_all (sample_env 0 ''2026-01-01T00:00:00Z'') True Map.empty))))
   \<and> (\<exists>post. snd (scrape_all (sample_env 0 ''2026-01-01T00:00:00Z'') True Map.empty) CACHE_PATH
                = Some (snapshot_prefix @ json_string (utext ''2026-01-01T00:00:00Z'') @ post)
            \<and> snd (scrape_all (sample_env 90000000000 ''2026-01-02T01:00:00Z'') True
                      (snd (scrape_all (sample_env 0 ''2026-01-01T00:00:00Z'') True Map.empty)))
                  CACHE_PATH
                = Some (snapshot_prefix @ json_string (utext ''2026-01-02T01:00:00Z'') @ post))
   \<and> scrape_all (sample_env 0 ''2026-01-01T00:00:00Z'') True
       (snd (scrape_all (sample_env 0 ''2026-01-01T00:00:00Z'') True Map.empty))
     = (Inr (Rebuilt \<lparr>meta = \<lparr>scraped_at = ''2026-01-01T00:00:00Z'', types = TYPE_KEYS,
                               row_count = 1\<rparr>,
                      rows = [sample_row ''chords'' 42 50 (Some (9 / 2))]\<rparr>),
        snd (scrape_all (sample_env 0 ''2026-01-01T00:00:00Z'') True
               (snd (scrape_all (sample_env 0 ''2026-01-01T00:00:00Z'') True Map.empty))))
   \<and> snd (scrape_all (sample_env 0 ''2026-01-01T00:00:00Z'') True
             (snd (scrape_all (sample_env 0 ''2026-01-01T00:00:00Z'') True Map.empty))) CACHE_PATH
     = snd (scrape_all (sample_env 0 ''2026-01-01T00:00:00Z'') True Map.empty) CACHE_PATH
   \<and> cache_is_fresh sample_loads sample_fromisoformat sample_timedelta_hours 90000000000
       (file_with ''snapshot'') 24 = Inr True
   \<and> scrape_all (sample_env 90000000000 ''2026-01-01T01:00:00Z'') False (file_with ''snapshot'')
     = (Inr (Cached (snapshot_json (JStr (utext ''2026-01-01T00:00:00Z'')))),
        file_with ''snapshot'')"
proof -
  let ?e1 = "sample_env 0 ''2026-01-01T00:00:00Z''"
  let ?e2 = "sample_env 90000000000 ''2026-01-02T01:00:00Z''"
  let ?e3 = "sample_env 90000000000 ''2026-01-01T01:00:00Z''"
  let ?o1 = "\<lparr>meta = \<lparr>scraped_at = ''2026-01-01T00:00:00Z'', types = TYPE_KEYS, row_count = 1\<rparr>,
             rows = [sample_row ''chords'' 42 50 (Some (9 / 2))]\<rparr>"
  let ?o2 = "\<lparr>meta = \<lparr>scraped_at = ''2026-01-02T01:00:00Z'', types = TYPE_KEYS, row_count = 1\<rparr>,
             rows = [sample_row ''chords'' 42 50 (Some (9 / 2))]\<rparr>"
  let ?fs1 = "snd (scrape_all ?e1 True Map.empty)"
  let ?fs2 = "snd (scrape_all ?e2 True ?fs1)"
  let ?fs3 = "snd (scrape_all ?e1 True ?fs1)"
  let ?j = "snapshot_json (JStr (utext ''2026-01-01T00:00:00Z''))"
  have v1: "fst (scrape_all ?e1 True Map.empty) = Inr (Rebuilt ?o1)" by code_simp
  have v2: "fst (scrape_all ?e2 True ?fs1) = Inr (Rebuilt ?o2)" by code_simp
  have v3: "fst (scrape_all ?e1 True ?fs1) = Inr (Rebuilt ?o1)" by code_simp
  have r1: "scrape_all ?e1 True Map.empty = (Inr (Rebuilt ?o1), ?fs1)"
    by (rule prod_eqI) (simp_all add: v1)
  have r2: "scrape_all ?e2 True ?fs1 = (Inr (Rebuilt ?o2), ?fs2)"
    by (rule prod_eqI) (simp_all add: v2)
  have r3: "scrape_all ?e1 True ?fs1 = (Inr (Rebuilt ?o1), ?fs3)"
    by (rule prod_eqI) (simp_all add: v3)
  have e: "env_fetch ?e2 = env_fetch ?e1 \<and> env_float_repr ?e2 = env_float_repr ?e1"
    by (simp add: sample_env_def)
  have s2: "env_now_iso ?e2 = ''2026-01-02T01:00:00Z''" and s1: "env_now_iso ?e1 = ''2026-01-01T00:00:00Z''"
    by (simp_all add: sample_env_def)
  note A = rerun_changes_timestamp_bytes_only
    [where ?e1.0 = ?e1 and ?e2.0 = ?e2 and ?force1.0 = True and ?force2.0 = True
       and ?fs0.0 = Map.empty and ?fs1.0 = ?fs1 and ?fs2.0 = ?fs2 and ?o1.0 = ?o1 and ?o2.0 = ?o2,
     THEN conjunct1, THEN mp, OF conjI [OF r1 conjI [OF r2 e]]]
  have c1: "\<exists>post. ?fs1 CACHE_PATH
                = Some (snapshot_prefix @ json_string (utext ''2026-01-01T00:00:00Z'') @ post)
            \<and> ?fs2 CACHE_PATH
                = Some (snapshot_prefix @ json_string (utext ''2026-01-02T01:00:00Z'') @ post)"
    using A [THEN conjunct1] unfolding s1 s2 .
  note B = rerun_changes_timestamp_bytes_only
    [where ?e1.0 = ?e1 and ?e2.0 = ?e1 and ?force1.0 = True and ?force2.0 = True
       and ?fs0.0 = Map.empty and ?fs1.0 = ?fs1 and ?fs2.0 = ?fs3 and ?o1.0 = ?o1 and ?o2.0 = ?o1,
     THEN conjunct1, THEN mp, OF conjI [OF r1 conjI [OF r3 conjI [OF refl refl]]]]
  have c2: "?fs3 CACHE_PATH = ?fs1 CACHE_PATH"
    by (rule B [THEN conjunct2, THEN mp]) (rule refl)
  have f: "cache_is_fresh sample_loads sample_fromisoformat sample_timedelta_hours 90000000000
       (file_with ''snapshot'') 24 = Inr True"
    by code_simp
  have l: "load_existing sample_loads (file_with ''snapshot'') = Some ?j \<and> truthy ?j"
    by (simp add: load_existing_def file_with_def sample_loads_def snapshot_json_def)
  have g: "\<not> False
      \<and> cache_is_fresh (env_loads ?e3) (env_fromisoformat ?e3) (env_timedelta_hours ?e3)
          (env_now ?e3) (file_with ''snapshot'') 24 = Inr True
      \<and> load_existing (env_loads ?e3) (file_with ''snapshot'') = Some ?j \<and> truthy ?j"
    using f l by (simp add: sample_env_def)
  have c3: "scrape_all ?e3 False (file_with ''snapshot'') = (Inr (Cached ?j), file_with ''snapshot'')"
    by (rule rerun_changes_timestamp_bytes_only
        [where e = ?e3 and force = False and fs = "file_with ''snapshot''" and j = ?j,
         THEN conjunct2, THEN mp]) (rule g)
  show ?thesis by (intro conjI r1 r2 c1 r3 c2 f c3)
qed

end
